theory Spec2Isabelle
  imports Complex_Main "HOL-Library.Product_Lexorder" "HOL-Library.AList"
begin

chapter \<open>gatsby-source-contentful: normalisation and image derivatives\<close>

text \<open>
  A shallow embedding of \<^verbatim>\<open>packages/gatsby-source-contentful/src/extend-node-type.js\<close>
  and \<^verbatim>\<open>packages/gatsby-source-contentful/src/normalize.js\<close>.  Part I holds the
  definitions, translated function by function from the JavaScript; Part II holds the
  theorems.
\<close>

section \<open>Part I: the embedding\<close>

subsection \<open>JavaScript numbers\<close>

text \<open>
  A JavaScript number is modelled as an exact rational, or one of the three non-finite
  values.  Rounding error of IEEE doubles is not modelled, and negative zero is
  identified with zero.  \<open>undefined\<close> is \<open>None\<close> of an option type; \<open>toNumber\<close> is the
  coercion JavaScript applies when \<open>undefined\<close> meets an arithmetic operator.
\<close>

datatype jsnum = Num rat | NaN | PosInf | NegInf

fun toNumber :: "jsnum option \<Rightarrow> jsnum" where
  "toNumber None = NaN"
| "toNumber (Some x) = x"






text \<open>Truthiness, as \<^verbatim>\<open>if (x)\<close>, \<^verbatim>\<open>x && y\<close> and \<^verbatim>\<open>x || y\<close> test it.\<close>

fun truthy_num :: "jsnum option \<Rightarrow> bool" where
  "truthy_num None = False"
| "truthy_num (Some (Num a)) = (a \<noteq> 0)"
| "truthy_num (Some NaN) = False"
| "truthy_num (Some _) = True"

fun truthy_str :: "string option \<Rightarrow> bool" where
  "truthy_str None = False"
| "truthy_str (Some s) = (s \<noteq> [])"

fun truthy_bool :: "bool option \<Rightarrow> bool" where
  "truthy_bool None = False"
| "truthy_bool (Some b) = b"



subsection \<open>Image assets, request options and URLs\<close>



text \<open>
  The \<open>options\<close> object of a resolver: the GraphQL arguments.  \<open>None\<close> is an argument
  that is \<open>undefined\<close>; for the string arguments \<open>None\<close> also stands for \<open>null\<close>, which
  the code never tells from \<open>undefined\<close>.  The \<open>sizes\<close> hint is the caller's string, or
  the default \<^verbatim>\<open>`(max-width: ${maxWidth}px) 100vw, ${maxWidth}px`\<close> that \<^verbatim>\<open>resolveFluid\<close>
  builds, kept as the number it prints.
\<close>

datatype sizes_value = SizesString string | SizesDefault jsnum

record img_options =
  width :: "jsnum option"
  height :: "jsnum option"
  maxWidth :: "jsnum option"
  maxHeight :: "jsnum option"
  sizes :: "sizes_value option"
  quality :: "jsnum option"
  toFormat :: "string option"
  jpegProgressive :: "bool option"
  resizingBehavior :: "string option"
  cropFocus :: "string option"
  background :: "string option"

text \<open>The options object with every argument \<open>undefined\<close>.\<close>

definition no_options :: img_options where
  "no_options =
     \<lparr> width = None, height = None, maxWidth = None, maxHeight = None,
       sizes = None, quality = None, toFormat = None, jpegProgressive = None,
       resizingBehavior = None, cropFocus = None, background = None \<rparr>"






text \<open>
  \<^verbatim>\<open>createUrl\<close> returns \<^verbatim>\<open>`https:${imgUrl}?${qs.stringify(urlArgs)}`\<close>.  The model
  keeps the string's parts: the image URL and the query arguments in the order of
  \<open>urlArgs\<close>, an argument that is \<open>undefined\<close> being left out as \<open>qs\<close> leaves it out.
\<close>

datatype qvalue = QNum jsnum | QStr string

record image_url =
  u_base :: string
  u_query :: "(string \<times> qvalue) list"

definition qnum :: "string \<Rightarrow> jsnum option \<Rightarrow> (string \<times> qvalue) list" where
  "qnum k v = (if truthy_num v then [(k, QNum (toNumber v))] else [])"

definition qstr :: "string \<Rightarrow> string option \<Rightarrow> (string \<times> qvalue) list" where
  "qstr k v = (case v of Some s \<Rightarrow> (if s \<noteq> [] then [(k, QStr s)] else []) | None \<Rightarrow> [])"

definition createUrl :: "string \<Rightarrow> img_options \<Rightarrow> image_url" where
  "createUrl imgUrl options =
     \<lparr> u_base = imgUrl,
       u_query =
         qnum ''w'' (width options) @
         qnum ''h'' (height options) @
         (if toFormat options = Some ''jpg'' \<and> truthy_bool (jpegProgressive options)
          then [(''fl'', QStr ''progressive'')] else []) @
         qnum ''q'' (quality options) @
         qstr ''fm'' (toFormat options) @
         qstr ''fit'' (resizingBehavior options) @
         qstr ''f'' (cropFocus options) @
         qstr ''bg'' (background options) \<rparr>"

subsection \<open>resolveFixed, resolveFluid, resolveResize\<close>





























subsection \<open>Example inputs for the image resolvers\<close>



subsection \<open>The placeholder cache\<close>

text \<open>
  \<^verbatim>\<open>inFlightBase64Cache\<close> and \<^verbatim>\<open>resolvedBase64Cache\<close> are module-level maps keyed by the
  request URL.  A promise is named by the number of the \<^verbatim>\<open>loadImageAsBase64()\<close> call that
  made it: \<open>LoadPromise n\<close> is that call's promise, \<open>ThenPromise n\<close> the promise
  \<^verbatim>\<open>promise.then(...)\<close> derived from it.  \<open>fetches\<close> logs the URL of every call of
  \<^verbatim>\<open>fetchContentfulAsset\<close>, in order; \<open>outcomes\<close> records how a load has settled, a load
  with no outcome being pending.
\<close>

datatype promise = LoadPromise nat | ThenPromise nat

datatype settled = Pending | Fulfilled string | Rejected string

record cache_state =
  inFlightBase64Cache :: "image_url \<rightharpoonup> promise"
  resolvedBase64Cache :: "image_url \<rightharpoonup> string"
  fetches :: "image_url list"
  outcomes :: "nat \<rightharpoonup> settled"

record image_props =
  baseUrl :: string

datatype base64_result = ReturnNull | ReturnBody string | ReturnPromise promise

text \<open>\<^verbatim>\<open>s.indexOf(sub) !== -1\<close>.\<close>

fun str_includes :: "string \<Rightarrow> string \<Rightarrow> bool" where
  "str_includes [] sub = (sub = [])"
| "str_includes (c # cs) sub = (take (length sub) (c # cs) = sub \<or> str_includes cs sub)"

definition placeholder_url :: "string \<Rightarrow> image_url" where
  "placeholder_url b =
     createUrl b (no_options\<lparr>width := Some (Num 20), toFormat := Some ''jpg''\<rparr>)"

definition getBase64Image ::
  "image_props option \<Rightarrow> cache_state \<Rightarrow> base64_result \<times> cache_state" where
  "getBase64Image imageProps s =
     (case imageProps of
        None \<Rightarrow> (ReturnNull, s)
      | Some props \<Rightarrow>
          if \<not> str_includes (baseUrl props) ''images.ctfassets.net'' then (ReturnNull, s)
          else
            let requestUrl = placeholder_url (baseUrl props) in
            let alreadyFetched = resolvedBase64Cache s requestUrl in
            (case (if truthy_str alreadyFetched then alreadyFetched else None) of
               Some body \<Rightarrow> (ReturnBody body, s)
             | None \<Rightarrow>
                 (case inFlightBase64Cache s requestUrl of
                    Some inFlight \<Rightarrow> (ReturnPromise inFlight, s)
                  | None \<Rightarrow>
                      let n = length (fetches s) in
                      (ReturnPromise (ThenPromise n),
                       s\<lparr>fetches := fetches s @ [requestUrl],
                         inFlightBase64Cache :=
                           (inFlightBase64Cache s)(requestUrl \<mapsto> LoadPromise n)\<rparr>))))"

text \<open>
  The two ways a load settles.  \<^verbatim>\<open>loadImageAsBase64\<close> fulfils with the data URI of the
  fetched bytes, and the callback of \<^verbatim>\<open>promise.then\<close> then deletes the URL from the
  in-flight map and stores the body in the resolved map.  When the fetch (or the file
  read) fails the promise rejects, and the callback, registered for fulfilment only,
  does not run.  A promise settles at most once; the callback is run in the same step as
  the settlement that triggers it.
\<close>

definition is_pending :: "nat \<Rightarrow> cache_state \<Rightarrow> bool" where
  "is_pending n s = (n < length (fetches s) \<and> outcomes s n = None)"

definition load_fulfils :: "nat \<Rightarrow> string \<Rightarrow> cache_state \<Rightarrow> cache_state" where
  "load_fulfils n base64 s =
     (if is_pending n s
      then let body = ''data:image/jpeg;base64,'' @ base64;
               requestUrl = fetches s ! n
           in s\<lparr>outcomes := (outcomes s)(n \<mapsto> Fulfilled body),
                inFlightBase64Cache := (inFlightBase64Cache s)(requestUrl := None),
                resolvedBase64Cache := (resolvedBase64Cache s)(requestUrl \<mapsto> body)\<rparr>
      else s)"

definition load_rejects :: "nat \<Rightarrow> string \<Rightarrow> cache_state \<Rightarrow> cache_state" where
  "load_rejects n err s =
     (if is_pending n s then s\<lparr>outcomes := (outcomes s)(n \<mapsto> Rejected err)\<rparr> else s)"

text \<open>
  The state of a promise: \<^verbatim>\<open>promise.then(cb)\<close> fulfils with what \<open>cb\<close> returns, the body,
  and rejects with the reason of \<open>promise\<close>.
\<close>

fun promise_state :: "cache_state \<Rightarrow> promise \<Rightarrow> settled" where
  "promise_state s (LoadPromise n) = (case outcomes s n of None \<Rightarrow> Pending | Some r \<Rightarrow> r)"
| "promise_state s (ThenPromise n) = (case outcomes s n of None \<Rightarrow> Pending | Some r \<Rightarrow> r)"

subsection \<open>Example runs of the placeholder cache\<close>

definition empty_cache :: cache_state where
  "empty_cache =
     \<lparr> inFlightBase64Cache = Map.empty, resolvedBase64Cache = Map.empty,
       fetches = [], outcomes = Map.empty \<rparr>"

definition example_props :: image_props where
  "example_props = \<lparr> baseUrl = ''//images.ctfassets.net/space/a.jpg'' \<rparr>"



definition coalescing_run :: "(base64_result \<times> base64_result \<times> base64_result) \<times> cache_state" where
  "coalescing_run =
     (let (r1, s1) = getBase64Image (Some example_props) empty_cache;
          (r2, s2) = getBase64Image (Some example_props) s1;
          s3 = load_fulfils 0 ''AAAA'' s2;
          (r4, s4) = getBase64Image (Some example_props) s3
      in ((r1, r2, r4), s4))"

definition rejecting_run :: "base64_result \<times> cache_state" where
  "rejecting_run =
     (let (r1, s1) = getBase64Image (Some example_props) empty_cache;
          s2 = load_rejects 0 ''ECONNRESET'' s1
      in getBase64Image (Some example_props) s2)"

subsection \<open>JavaScript values and objects\<close>

text \<open>
  The values of the synced data and of the nodes: JSON values, and \<open>undefined\<close>.  An
  object is the list of its properties in insertion order; the keys of an object are
  distinct.  (JavaScript lists keys that are array indices first; no object here has
  such keys.)
\<close>

datatype jsval =
    JUndefined
  | JNull
  | JBool bool
  | JNum rat
  | JStr string
  | JArr "jsval list"
  | JObj "(string \<times> jsval) list"

type_synonym obj = "(string \<times> jsval) list"

fun truthy :: "jsval \<Rightarrow> bool" where
  "truthy JUndefined = False"
| "truthy JNull = False"
| "truthy (JBool b) = b"
| "truthy (JNum n) = (n \<noteq> 0)"
| "truthy (JStr s) = (s \<noteq> [])"
| "truthy (JArr _) = True"
| "truthy (JObj _) = True"

text \<open>\<^verbatim>\<open>o[k]\<close> on an object: \<open>undefined\<close> for a key the object does not have.\<close>

definition lookup :: "obj \<Rightarrow> string \<Rightarrow> jsval" where
  "lookup kvs k = (case map_of kvs k of None \<Rightarrow> JUndefined | Some v \<Rightarrow> v)"

subsection \<open>LocaleResolver\<close>

text \<open>
  A locale has a \<open>code\<close> and a \<open>fallbackCode\<close>, which the platform gives as a code or as
  \<open>null\<close> and which may be missing.  \<^verbatim>\<open>getLocalizedField\<close> calls itself with
  \<^verbatim>\<open>{ code: localesFallback[locale.code] }\<close>, so the code it is called with is any of the
  three; \<open>prop_key\<close> is the property name JavaScript makes of it.  The map
  \<open>localesFallback\<close> is a function from property names, \<open>CodeUndefined\<close> where the object
  has no such property.  (No locale code is the name of a property of
  \<^verbatim>\<open>Object.prototype\<close>.)
\<close>

datatype locale_code = CodeUndefined | CodeNull | Code string

fun prop_key :: "locale_code \<Rightarrow> string" where
  "prop_key CodeUndefined = ''undefined''"
| "prop_key CodeNull = ''null''"
| "prop_key (Code s) = s"

record locale_item =
  code :: string
  fallbackCode :: locale_code

text \<open>
  The recursion of \<^verbatim>\<open>getLocalizedField\<close> has no bound, so the model is a partial
  function: \<open>None\<close> is a call that does not return (JavaScript ends it with a
  \<^verbatim>\<open>RangeError\<close> when the stack is full).
\<close>

partial_function (option) getLocalizedField ::
  "obj \<Rightarrow> locale_code \<Rightarrow> (string \<Rightarrow> locale_code) \<Rightarrow> jsval option" where
  "getLocalizedField field c localesFallback =
     (if lookup field (prop_key c) \<noteq> JUndefined then Some (lookup field (prop_key c))
      else if c \<noteq> CodeUndefined \<and> localesFallback (prop_key c) \<noteq> CodeUndefined
      then getLocalizedField field (localesFallback (prop_key c)) localesFallback
      else Some JNull)"

definition buildFallbackChain :: "locale_item list \<Rightarrow> (string \<Rightarrow> locale_code)" where
  "buildFallbackChain locales =
     foldl (\<lambda>localesFallback l. localesFallback(code l := fallbackCode l))
       (\<lambda>_. CodeUndefined) locales"

text \<open>One step along the fallback chain, as a relation: from \<open>c\<close> to its fallback.\<close>

definition fallback_step :: "(string \<Rightarrow> locale_code) \<Rightarrow> (locale_code \<times> locale_code) set" where
  "fallback_step localesFallback =
     {(c', c). c \<noteq> CodeUndefined \<and> localesFallback (prop_key c) \<noteq> CodeUndefined \<and>
               c' = localesFallback (prop_key c)}"

subsection \<open>Example locales\<close>

definition example_locales :: "locale_item list" where
  "example_locales =
     [\<lparr>code = ''en-US'', fallbackCode = CodeNull\<rparr>,
      \<lparr>code = ''de'', fallbackCode = Code ''en-US''\<rparr>]"

definition cyclic_locales :: "locale_item list" where
  "cyclic_locales =
     [\<lparr>code = ''a'', fallbackCode = Code ''b''\<rparr>, \<lparr>code = ''b'', fallbackCode = Code ''a''\<rparr>]"

declare getLocalizedField.simps [code]

subsection \<open>Errors, and loops that may throw\<close>

text \<open>
  A JavaScript exception is a value: \<open>TypeError\<close> for a property read on \<open>undefined\<close>
  or \<open>null\<close> and for a call of something that is no function, \<open>RangeError\<close> for the
  full stack of a recursion without end.  \<open>fold_err\<close> is a \<^verbatim>\<open>forEach\<close> whose callback
  may throw, \<open>map_err\<close> and \<open>filter_err\<close> are \<^verbatim>\<open>map\<close> and \<^verbatim>\<open>filter\<close>: the first exception
  ends the loop.
\<close>

datatype error = TypeError | RangeError

fun fold_err :: "('a \<Rightarrow> 's \<Rightarrow> error + 's) \<Rightarrow> 'a list \<Rightarrow> 's \<Rightarrow> error + 's" where
  "fold_err f [] s = Inr s"
| "fold_err f (x # xs) s = (case f x s of Inl e \<Rightarrow> Inl e | Inr s' \<Rightarrow> fold_err f xs s')"

fun map_err :: "('a \<Rightarrow> error + 'b) \<Rightarrow> 'a list \<Rightarrow> error + 'b list" where
  "map_err f [] = Inr []"
| "map_err f (x # xs) =
     (case f x of Inl e \<Rightarrow> Inl e
      | Inr y \<Rightarrow> (case map_err f xs of Inl e \<Rightarrow> Inl e | Inr ys \<Rightarrow> Inr (y # ys)))"

fun filter_err :: "('a \<Rightarrow> error + bool) \<Rightarrow> 'a list \<Rightarrow> error + 'a list" where
  "filter_err p [] = Inr []"
| "filter_err p (x # xs) =
     (case p x of Inl e \<Rightarrow> Inl e
      | Inr b \<Rightarrow> (case filter_err p xs of Inl e \<Rightarrow> Inl e
                  | Inr ys \<Rightarrow> Inr (if b then x # ys else ys)))"

subsection \<open>Reading values\<close>

text \<open>
  \<^verbatim>\<open>v.k\<close> on a value that is neither \<open>undefined\<close> nor \<open>null\<close> (on those the read throws,
  which each call site writes out): the property of an object, and \<open>undefined\<close> on
  anything else, the keys read here (\<open>sys\<close>, \<open>type\<close>, \<open>linkType\<close>, \<open>id\<close>, \<open>internal\<close>,
  \<open>contentDigest\<close>, \<open>lat\<close>, \<open>lon\<close>) being no properties of strings, numbers or arrays.
\<close>

fun getprop :: "jsval \<Rightarrow> string \<Rightarrow> jsval" where
  "getprop (JObj kvs) k = lookup kvs k"
| "getprop _ k = JUndefined"

definition nullish :: "jsval \<Rightarrow> bool" where
  "nullish v = (v = JUndefined \<or> v = JNull)"

text \<open>\<^verbatim>\<open>xs[0]\<close>.\<close>

fun first_item :: "jsval list \<Rightarrow> jsval" where
  "first_item [] = JUndefined"
| "first_item (x # _) = x"

text \<open>\<^verbatim>\<open>s.includes(sub)\<close> and \<^verbatim>\<open>s.startsWith(p)\<close> are \<open>str_includes\<close> and a test on \<open>take\<close>.\<close>

definition startsWith :: "string \<Rightarrow> string \<Rightarrow> bool" where
  "startsWith s p = (take (length p) s = p)"

text \<open>
  \<^verbatim>\<open>{...a, ...b}\<close>: the properties of \<open>a\<close>, each property of \<open>b\<close> written over them in turn
  (in place when \<open>a\<close> has the key, at the end when not).  \<^verbatim>\<open>o[k] = v\<close> is \<open>AList.update\<close>
  and \<^verbatim>\<open>delete o[k]\<close> is \<open>AList.delete\<close>.
\<close>

definition spread :: "obj \<Rightarrow> obj \<Rightarrow> obj" where
  "spread a b = foldl (\<lambda>acc (k, v). AList.update k v acc) a b"

text \<open>A \<open>Set\<close> lists its members in the order they were first added.\<close>

fun dedupe :: "'a list \<Rightarrow> 'a list" where
  "dedupe [] = []"
| "dedupe (x # xs) = x # dedupe (filter (\<lambda>y. y \<noteq> x) xs)"

text \<open>The decimal digits of an array index, as a template literal prints it.\<close>

function show_nat :: "nat \<Rightarrow> string" where
  "show_nat n =
     (if n < 10 then [''0123456789'' ! n]
      else show_nat (n div 10) @ [''0123456789'' ! (n mod 10)])"
  by pat_completeness auto
termination
  by (relation "measure id") auto

subsection \<open>The collaborators and the library\<close>

text \<open>
  What the plugin is handed or imports, as parameters: \<open>createNodeId\<close>,
  \<open>createContentDigest\<close> and \<open>getNode\<close> of Gatsby (the store's nodes can change with
  every \<open>createNode\<close>, so \<open>getNode\<close> is given the nodes created so far in the call);
  \<open>stringify\<close> of \<^verbatim>\<open>json-stringify-safe\<close> and \<^verbatim>\<open>JSON.stringify\<close>; \<open>toString\<close>, the string
  a template literal makes of a value that is no string; \<open>upperFirst_camelCase\<close> for
  \<^verbatim>\<open>_.upperFirst(_.camelCase(s))\<close> and \<open>toLowerCase\<close> for \<^verbatim>\<open>s.toLowerCase()\<close>.
\<close>

record env =
  createNodeId :: "string \<Rightarrow> string"
  createContentDigest :: "string \<Rightarrow> string"
  getNode :: "jsval list \<Rightarrow> string \<Rightarrow> jsval"
  stringify :: "jsval \<Rightarrow> string"
  JSON_stringify :: "jsval \<Rightarrow> jsval"
  toString :: "jsval \<Rightarrow> string"
  upperFirst_camelCase :: "string \<Rightarrow> string"
  toLowerCase :: "string \<Rightarrow> string"

text \<open>A value inside a template literal.\<close>

definition template :: "env \<Rightarrow> jsval \<Rightarrow> string" where
  "template E v = (case v of JStr s \<Rightarrow> s | _ \<Rightarrow> toString E v)"

definition typePrefix :: string where
  "typePrefix = ''Contentful''"

definition makeTypeName :: "env \<Rightarrow> string \<Rightarrow> string" where
  "makeTypeName E t = upperFirst_camelCase E (typePrefix @ '' '' @ t)"

subsection \<open>IdentityScheme\<close>

definition makeId :: "string \<Rightarrow> string \<Rightarrow> string \<Rightarrow> string \<Rightarrow> string \<Rightarrow> string" where
  "makeId spaceId i currentLocale defaultLocale t =
     (let normalizedType = (if startsWith t ''Deleted'' then drop (length ''Deleted'') t else t)
      in if currentLocale = defaultLocale
         then spaceId @ ''___'' @ i @ ''___'' @ normalizedType
         else spaceId @ ''___'' @ i @ ''___'' @ normalizedType @ ''___'' @ currentLocale)"

text \<open>
  \<^verbatim>\<open>makeMakeId({ currentLocale, defaultLocale, createNodeId })\<close> applied to
  \<^verbatim>\<open>(spaceId, id, type)\<close>.
\<close>

definition mId :: "env \<Rightarrow> string \<Rightarrow> string \<Rightarrow> string \<Rightarrow> string \<Rightarrow> string \<Rightarrow> string" where
  "mId E currentLocale defaultLocale spaceId i t =
     createNodeId E (makeId spaceId i currentLocale defaultLocale t)"

subsection \<open>Links in field values\<close>

text \<open>
  The test both functions make of a field value (and of the first element of an
  array): \<^verbatim>\<open>v && v.sys && v.sys.type && v.sys.id\<close>.
\<close>

definition isLink :: "jsval \<Rightarrow> bool" where
  "isLink v =
     (truthy v \<and> truthy (getprop v ''sys'') \<and>
      truthy (getprop (getprop v ''sys'') ''type'') \<and>
      truthy (getprop (getprop v ''sys'') ''id''))"

text \<open>A field value that the forward step takes for a link, or for an array of links.\<close>

definition is_raw_link :: "jsval \<Rightarrow> bool" where
  "is_raw_link v = (case v of JArr xs \<Rightarrow> isLink (first_item xs) | _ \<Rightarrow> isLink v)"

text \<open>\<^verbatim>\<open>v.sys.linkType || v.sys.type\<close>, and the key \<^verbatim>\<open>`${v.sys.id}___${v.sys.linkType || v.sys.type}`\<close>.\<close>

definition linkType_or_type :: "jsval \<Rightarrow> jsval" where
  "linkType_or_type v =
     (if truthy (getprop (getprop v ''sys'') ''linkType'')
      then getprop (getprop v ''sys'') ''linkType''
      else getprop (getprop v ''sys'') ''type'')"

definition link_key :: "env \<Rightarrow> jsval \<Rightarrow> string" where
  "link_key E v =
     template E (getprop (getprop v ''sys'') ''id'') @ ''___'' @ template E (linkType_or_type v)"

text \<open>The same key for an element of an array, where nothing has tested \<^verbatim>\<open>v.sys\<close>.\<close>

definition element_key :: "env \<Rightarrow> jsval \<Rightarrow> error + string" where
  "element_key E v =
     (if nullish v \<or> nullish (getprop v ''sys'') then Inl TypeError else Inr (link_key E v))"

text \<open>
  \<^verbatim>\<open>mId(space.sys.id, v.sys.id, v.sys.linkType || v.sys.type)\<close>: \<^verbatim>\<open>makeId\<close> calls
  \<^verbatim>\<open>type.startsWith\<close>, which only a string has.
\<close>

definition mId_link :: "env \<Rightarrow> string \<Rightarrow> string \<Rightarrow> string \<Rightarrow> jsval \<Rightarrow> error + string" where
  "mId_link E currentLocale defaultLocale spaceId v =
     (case linkType_or_type v of
        JStr t \<Rightarrow>
          Inr (mId E currentLocale defaultLocale spaceId
                 (template E (getprop (getprop v ''sys'') ''id'')) t)
      | _ \<Rightarrow> Inl TypeError)"


subsection \<open>Synced data\<close>

text \<open>
  The \<open>sys\<close> of an entry or an asset, an entry (\<open>fields\<close>: per field id, the object from
  locale codes to values; \<open>metadata_tags\<close>: the ids \<^verbatim>\<open>tag.sys.id\<close> of \<^verbatim>\<open>metadata.tags\<close>,
  \<open>None\<close> when the entry has no \<open>metadata\<close>), and a content type.
\<close>

record entity_sys =
  sys_id :: string
  sys_type :: string
  sys_createdAt :: string
  sys_updatedAt :: string
  sys_revision :: jsval
  sys_contentType :: "string option"

record entry_item =
  sys :: entity_sys
  entry_fields :: "(string \<times> obj) list"
  metadata_tags :: "string list option"

record field_item =
  field_id :: string
  field_type :: string
  localized :: bool

record content_type_item =
  ct_sys_id :: string
  ct_sys_updatedAt :: string
  ct_name :: string
  ct_displayField :: jsval
  ct_description :: jsval
  ct_fields :: "field_item list"

text \<open>The key \<^verbatim>\<open>`${entry.sys.id}___${entry.sys.type}`\<close> of an entity.\<close>

definition entity_key :: "entity_sys \<Rightarrow> string" where
  "entity_key s = sys_id s @ ''___'' @ sys_type s"

subsection \<open>ReferenceIndexer: buildForeignReferenceMap\<close>

record foreign_reference =
  fr_name :: string
  fr_id :: string
  fr_spaceId :: string
  fr_type :: string

text \<open>
  The map is a function from keys to the list of references pushed under the key, the
  empty list for a key the object does not have (the caller iterates the list when
  there is one).
\<close>

type_synonym foreign_reference_map = "string \<Rightarrow> foreign_reference list"

definition push_reference ::
  "string \<Rightarrow> foreign_reference \<Rightarrow> foreign_reference_map \<Rightarrow> foreign_reference_map" where
  "push_reference k r m = m(k := m k @ [r])"

definition reference_of :: "string \<Rightarrow> string \<Rightarrow> entry_item \<Rightarrow> foreign_reference" where
  "reference_of contentTypeItemId spaceId entryItem =
     \<lparr> fr_name = contentTypeItemId @ ''___NODE'',
       fr_id = sys_id (sys entryItem),
       fr_spaceId = spaceId,
       fr_type = sys_type (sys entryItem) \<rparr>"

text \<open>The callback of \<^verbatim>\<open>entryItemFieldValue.forEach\<close>: one element of an array of links.\<close>

definition record_element ::
  "env \<Rightarrow> string set \<Rightarrow> foreign_reference \<Rightarrow> jsval \<Rightarrow> foreign_reference_map \<Rightarrow>
   error + foreign_reference_map" where
  "record_element E res r v m =
     (case element_key E v of
        Inl e \<Rightarrow> Inl e
      | Inr k \<Rightarrow> if k \<notin> res then Inr m else Inr (push_reference k r m))"

text \<open>The callback of \<^verbatim>\<open>Object.keys(entryItemFields).forEach\<close>: one field of an entry.\<close>

definition record_field ::
  "env \<Rightarrow> string set \<Rightarrow> string \<Rightarrow> foreign_reference \<Rightarrow> (string \<times> obj) \<Rightarrow>
   foreign_reference_map \<Rightarrow> error + foreign_reference_map" where
  "record_field E res dl r kv m =
     (let entryItemFieldValue = lookup (snd kv) dl in
      case entryItemFieldValue of
        JArr xs \<Rightarrow>
          if isLink (first_item xs) then fold_err (record_element E res r) xs m else Inr m
      | _ \<Rightarrow>
          if isLink entryItemFieldValue
          then (if link_key E entryItemFieldValue \<notin> res then Inr m
                else Inr (push_reference (link_key E entryItemFieldValue) r m))
          else Inr m)"

definition record_entry ::
  "env \<Rightarrow> string set \<Rightarrow> string \<Rightarrow> string \<Rightarrow> string \<Rightarrow> entry_item \<Rightarrow>
   foreign_reference_map \<Rightarrow> error + foreign_reference_map" where
  "record_entry E res dl spaceId contentTypeItemId entryItem m =
     fold_err (record_field E res dl (reference_of contentTypeItemId spaceId entryItem))
       (entry_fields entryItem) m"

definition lowercase_id :: "env \<Rightarrow> bool \<Rightarrow> content_type_item \<Rightarrow> string" where
  "lowercase_id E useNameForId contentTypeItem =
     (if useNameForId then toLowerCase E (ct_name contentTypeItem)
      else toLowerCase E (ct_sys_id contentTypeItem))"

text \<open>
  The callback of \<^verbatim>\<open>contentTypeItems.forEach((contentTypeItem, i) => ...)\<close>:
  \<^verbatim>\<open>entryList[i].forEach\<close> throws when \<open>entryList\<close> has no \<open>i\<close>-th bucket.
\<close>

definition record_contentType ::
  "env \<Rightarrow> entry_item list list \<Rightarrow> string set \<Rightarrow> string \<Rightarrow> string \<Rightarrow> bool \<Rightarrow>
   (nat \<times> content_type_item) \<Rightarrow> foreign_reference_map \<Rightarrow> error + foreign_reference_map" where
  "record_contentType E entryList res dl spaceId useNameForId ic m =
     (if fst ic < length entryList
      then fold_err
             (record_entry E res dl spaceId (lowercase_id E useNameForId (snd ic)))
             (entryList ! fst ic) m
      else Inl TypeError)"

definition buildForeignReferenceMap ::
  "env \<Rightarrow> content_type_item list \<Rightarrow> entry_item list list \<Rightarrow> string set \<Rightarrow> string \<Rightarrow>
   string \<Rightarrow> bool \<Rightarrow> error + foreign_reference_map" where
  "buildForeignReferenceMap E contentTypeItems entryList res dl spaceId useNameForId =
     fold_err (record_contentType E entryList res dl spaceId useNameForId)
       (enumerate 0 contentTypeItems) (\<lambda>_. [])"


subsection \<open>EntryNormalizer: createNodesForContentType\<close>

text \<open>
  \<^verbatim>\<open>normalize.js\<close> is given in two revisions.  The first emits a \<open>ContentfulSys\<close> child
  node per entry and links it as \<open>sys___NODE\<close>, and makes child nodes for \<open>Text\<close>,
  \<open>RichText\<close>, \<open>Object\<close> and \<open>Location\<close> fields; the second keeps \<open>sys\<close> as a field of
  the entry node and makes child nodes for \<open>Text\<close> fields only.  The model takes the
  revision as a parameter where the two differ.
\<close>

datatype revision = SysNode | SysInline

text \<open>
  The argument of \<^verbatim>\<open>createNodesForContentType\<close>, but for the functions, which are in
  \<open>env\<close>: \<open>spaceId\<close> is \<^verbatim>\<open>space.sys.id\<close> and \<open>enableTags\<close> is
  \<^verbatim>\<open>pluginConfig.get(`enableTags`)\<close>.
\<close>

record args =
  contentTypeItem :: content_type_item
  restrictedNodeFields :: "string list"
  conflictFieldPrefix :: string
  entries :: "entry_item list"
  resolvable :: "string set"
  foreignReferenceMap :: foreign_reference_map
  defaultLocale :: string
  locales :: "locale_item list"
  spaceId :: string
  useNameForId :: bool
  enableTags :: bool

definition contentTypeItemId :: "args \<Rightarrow> string" where
  "contentTypeItemId A =
     (if useNameForId A then ct_name (contentTypeItem A) else ct_sys_id (contentTypeItem A))"

definition entryNodeId :: "env \<Rightarrow> args \<Rightarrow> locale_item \<Rightarrow> entry_item \<Rightarrow> string" where
  "entryNodeId E A l entryItem =
     mId E (code l) (defaultLocale A) (spaceId A) (sys_id (sys entryItem))
       (sys_type (sys entryItem))"

text \<open>\<^verbatim>\<open>existingNode?.internal?.contentDigest\<close>.\<close>

definition contentDigest_of :: "jsval \<Rightarrow> jsval" where
  "contentDigest_of existingNode =
     (if nullish existingNode then JUndefined
      else if nullish (getprop existingNode ''internal'') then JUndefined
      else getprop (getprop existingNode ''internal'') ''contentDigest'')"

text \<open>Step 1, \<^verbatim>\<open>_.mapValues(entryItem.fields, ...)\<close>: \<^verbatim>\<open>fieldProps.localized\<close> throws when
  the content type has no field of the key.\<close>

definition localize_field ::
  "args \<Rightarrow> locale_item \<Rightarrow> (string \<times> obj) \<Rightarrow> error + (string \<times> jsval)" where
  "localize_field A l kv =
     (case find (\<lambda>field. field_id field = fst kv) (ct_fields (contentTypeItem A)) of
        None \<Rightarrow> Inl TypeError
      | Some fieldProps \<Rightarrow>
          if localized fieldProps
          then (case getLocalizedField (snd kv) (Code (code l)) (buildFallbackChain (locales A)) of
                  None \<Rightarrow> Inl RangeError
                | Some localizedField \<Rightarrow> Inr (fst kv, localizedField))
          else Inr (fst kv, lookup (snd kv) (defaultLocale A)))"

definition localize_fields :: "args \<Rightarrow> locale_item \<Rightarrow> entry_item \<Rightarrow> error + obj" where
  "localize_fields A l entryItem = map_err (localize_field A l) (entry_fields entryItem)"

text \<open>Step 2: the conflicting fields get the prefix.\<close>

definition conflictFields :: "args \<Rightarrow> string list" where
  "conflictFields A =
     filter (\<lambda>fieldName. fieldName \<in> set (restrictedNodeFields A))
       (map field_id (ct_fields (contentTypeItem A)))"

definition prefix_conflictField :: "string \<Rightarrow> obj \<Rightarrow> string \<Rightarrow> obj" where
  "prefix_conflictField p entryItemFields conflictField =
     AList.delete conflictField
       (AList.update (p @ conflictField) (lookup entryItemFields conflictField) entryItemFields)"

definition prefix_conflictFields :: "args \<Rightarrow> obj \<Rightarrow> obj" where
  "prefix_conflictFields A entryItemFields =
     foldl (prefix_conflictField (conflictFieldPrefix A)) entryItemFields (conflictFields A)"

text \<open>
  Step 3, forward references.  \<open>resolvable_ids\<close> is the \<^verbatim>\<open>filter(...).map(...)\<close> over an
  array of links; \<open>link_field\<close> is the callback of the \<^verbatim>\<open>forEach\<close> over the keys the
  object had when the loop began.
\<close>

definition resolvable_ids :: "env \<Rightarrow> args \<Rightarrow> locale_item \<Rightarrow> jsval list \<Rightarrow> error + string list" where
  "resolvable_ids E A l xs =
     (case filter_err
             (\<lambda>v. case element_key E v of Inl e \<Rightarrow> Inl e | Inr k \<Rightarrow> Inr (k \<in> resolvable A)) xs of
        Inl e \<Rightarrow> Inl e
      | Inr ys \<Rightarrow> map_err (mId_link E (code l) (defaultLocale A) (spaceId A)) ys)"

definition link_field :: "env \<Rightarrow> args \<Rightarrow> locale_item \<Rightarrow> string \<Rightarrow> obj \<Rightarrow> error + obj" where
  "link_field E A l entryItemFieldKey entryItemFields =
     (let entryItemFieldValue = lookup entryItemFields entryItemFieldKey in
      if \<not> truthy entryItemFieldValue then Inr entryItemFields
      else
        case entryItemFieldValue of
          JArr xs \<Rightarrow>
            if isLink (first_item xs)
            then (case resolvable_ids E A l xs of
                    Inl e \<Rightarrow> Inl e
                  | Inr resolvableEntryItemFieldValue \<Rightarrow>
                      Inr (AList.delete entryItemFieldKey
                             (if resolvableEntryItemFieldValue \<noteq> []
                              then AList.update (entryItemFieldKey @ ''___NODE'')
                                     (JArr (map JStr resolvableEntryItemFieldValue))
                                     entryItemFields
                              else entryItemFields)))
            else Inr entryItemFields
        | _ \<Rightarrow>
            if isLink entryItemFieldValue
            then (if link_key E entryItemFieldValue \<in> resolvable A
                  then (case mId_link E (code l) (defaultLocale A) (spaceId A)
                               entryItemFieldValue of
                          Inl e \<Rightarrow> Inl e
                        | Inr i \<Rightarrow>
                            Inr (AList.delete entryItemFieldKey
                                   (AList.update (entryItemFieldKey @ ''___NODE'') (JStr i)
                                      entryItemFields)))
                  else Inr (AList.delete entryItemFieldKey entryItemFields))
            else Inr entryItemFields)"

definition link_fields :: "env \<Rightarrow> args \<Rightarrow> locale_item \<Rightarrow> obj \<Rightarrow> error + obj" where
  "link_fields E A l entryItemFields =
     fold_err (link_field E A l) (map fst entryItemFields) entryItemFields"

text \<open>
  Step 4, reverse references: the callback of \<^verbatim>\<open>foreignReferences.forEach\<close>.  The
  \<^verbatim>\<open>push\<close> on the array is an update of the field.
\<close>

definition foreign_id :: "env \<Rightarrow> args \<Rightarrow> locale_item \<Rightarrow> foreign_reference \<Rightarrow> string" where
  "foreign_id E A l foreignReference =
     mId E (code l) (defaultLocale A) (fr_spaceId foreignReference) (fr_id foreignReference)
       (fr_type foreignReference)"

definition add_foreignReference ::
  "env \<Rightarrow> args \<Rightarrow> locale_item \<Rightarrow> obj \<Rightarrow> foreign_reference \<Rightarrow> obj" where
  "add_foreignReference E A l entryItemFields foreignReference =
     (let existingReference = lookup entryItemFields (fr_name foreignReference) in
      if truthy existingReference
      then (case existingReference of
              JArr xs \<Rightarrow>
                AList.update (fr_name foreignReference)
                  (JArr (xs @ [JStr (foreign_id E A l foreignReference)])) entryItemFields
            | _ \<Rightarrow> entryItemFields)
      else AList.update (fr_name foreignReference)
             (JArr [JStr (foreign_id E A l foreignReference)]) entryItemFields)"

definition add_foreignReferences ::
  "env \<Rightarrow> args \<Rightarrow> locale_item \<Rightarrow> entry_item \<Rightarrow> obj \<Rightarrow> obj" where
  "add_foreignReferences E A l entryItem entryItemFields =
     foldl (add_foreignReference E A l) entryItemFields
       (foreignReferenceMap A (entity_key (sys entryItem)))"

text \<open>Steps 1 to 3, and steps 1 to 4: the entry's fields before any child node is made.\<close>

definition forward_fields :: "env \<Rightarrow> args \<Rightarrow> locale_item \<Rightarrow> entry_item \<Rightarrow> error + obj" where
  "forward_fields E A l entryItem =
     (case localize_fields A l entryItem of
        Inl e \<Rightarrow> Inl e
      | Inr entryItemFields \<Rightarrow> link_fields E A l (prefix_conflictFields A entryItemFields))"

definition linked_fields :: "env \<Rightarrow> args \<Rightarrow> locale_item \<Rightarrow> entry_item \<Rightarrow> error + obj" where
  "linked_fields E A l entryItem =
     (case forward_fields E A l entryItem of
        Inl e \<Rightarrow> Inl e
      | Inr fs \<Rightarrow> Inr (add_foreignReferences E A l entryItem fs))"

text \<open>
  The \<open>sys\<close> object of an entry: a child node of its own in the first revision, a
  plain object in the second.
\<close>

definition sys_optional :: "env \<Rightarrow> args \<Rightarrow> entry_item \<Rightarrow> obj" where
  "sys_optional E A entryItem =
     (if truthy (sys_revision (sys entryItem))
      then [(''revision'', sys_revision (sys entryItem))] else []) @
     (if sys_contentType (sys entryItem) \<noteq> None
      then [(''contentType___NODE'', JStr (createNodeId E (contentTypeItemId A)))] else [])"

definition sysId :: "env \<Rightarrow> args \<Rightarrow> locale_item \<Rightarrow> entry_item \<Rightarrow> string" where
  "sysId E A l entryItem = createNodeId E (entryNodeId E A l entryItem @ ''.sys'')"

definition sys_node :: "env \<Rightarrow> args \<Rightarrow> locale_item \<Rightarrow> entry_item \<Rightarrow> jsval" where
  "sys_node E A l entryItem =
     JObj ([(''id'', JStr (sysId E A l entryItem)),
            (''type'', JStr (sys_type (sys entryItem))),
            (''internal'',
               JObj [(''type'', JStr ''ContentfulSys''),
                     (''contentDigest'', JStr (sys_updatedAt (sys entryItem)))])] @
           sys_optional E A entryItem)"

definition sys_inline :: "env \<Rightarrow> args \<Rightarrow> entry_item \<Rightarrow> jsval" where
  "sys_inline E A entryItem =
     JObj ((''type'', JStr (sys_type (sys entryItem))) # sys_optional E A entryItem)"

text \<open>
  The entry node as the object literal makes it, with the \<open>children\<close> that
  \<^verbatim>\<open>prepareJSONNode\<close> has written by the time the fields are merged in.  In the first
  revision \<open>internal\<close> has its \<open>type\<close> only and gets the digest after the merge.
\<close>

definition core_attributes ::
  "revision \<Rightarrow> env \<Rightarrow> args \<Rightarrow> locale_item \<Rightarrow> entry_item \<Rightarrow> jsval list \<Rightarrow> obj" where
  "core_attributes R E A l entryItem children =
     [(''id'', JStr (entryNodeId E A l entryItem)),
      (''spaceId'', JStr (spaceId A)),
      (''contentful_id'', JStr (sys_id (sys entryItem))),
      (''createdAt'', JStr (sys_createdAt (sys entryItem))),
      (''updatedAt'', JStr (sys_updatedAt (sys entryItem))),
      (''parent'', JStr (contentTypeItemId A)),
      (''children'', JArr children),
      (''internal'',
         JObj ((''type'', JStr (makeTypeName E (contentTypeItemId A))) #
               (case R of
                  SysNode \<Rightarrow> []
                | SysInline \<Rightarrow> [(''contentDigest'', JStr (sys_updatedAt (sys entryItem)))]))),
      (case R of
         SysNode \<Rightarrow> (''sys___NODE'', JStr (sysId E A l entryItem))
       | SysInline \<Rightarrow> (''sys'', sys_inline E A entryItem))]"

text \<open>The child nodes.\<close>

definition prepareTextNode :: "string \<Rightarrow> string \<Rightarrow> string \<Rightarrow> jsval \<Rightarrow> jsval" where
  "prepareTextNode i node_id node_updatedAt text =
     (let str = (case text of JStr s \<Rightarrow> s | _ \<Rightarrow> []) in
      JObj [(''id'', JStr i),
            (''parent'', JStr node_id),
            (''raw'', JStr str),
            (''internal'',
               JObj [(''type'', JStr ''ContentfulNodeTypeText''),
                     (''mediaType'', JStr ''text/markdown''),
                     (''content'', JStr str),
                     (''contentDigest'', JStr node_updatedAt)])])"

text \<open>\<^verbatim>\<open>const { lat, lon } = data\<close> throws on \<open>undefined\<close> and \<open>null\<close>.\<close>

definition prepareLocationNode :: "string \<Rightarrow> string \<Rightarrow> string \<Rightarrow> jsval \<Rightarrow> error + jsval" where
  "prepareLocationNode i node_id node_updatedAt data =
     (if nullish data then Inl TypeError
      else Inr (JObj [(''id'', JStr i),
                      (''parent'', JStr node_id),
                      (''lat'', getprop data ''lat''),
                      (''lon'', getprop data ''lon''),
                      (''internal'',
                         JObj [(''type'', JStr ''ContentfulNodeTypeLocation''),
                               (''contentDigest'', JStr node_updatedAt)])]))"

text \<open>
  \<^verbatim>\<open>prepareJSONNode\<close> also appends the id to \<open>node.children\<close>; the caller of the model
  does that.
\<close>

definition prepareJSONNode :: "env \<Rightarrow> string \<Rightarrow> string \<Rightarrow> string \<Rightarrow> jsval \<Rightarrow> jsval" where
  "prepareJSONNode E i node_id node_updatedAt content =
     JObj (spread (case content of JObj kvs \<Rightarrow> kvs | _ \<Rightarrow> [(''content'', content)])
             [(''id'', JStr i),
              (''parent'', JStr node_id),
              (''children'', JArr []),
              (''internal'',
                 JObj [(''type'', JStr ''ContentfulNodeTypeJSON''),
                       (''mediaType'', JStr ''application/json''),
                       (''content'', JSON_stringify E content),
                       (''contentDigest'', JStr node_updatedAt)])])"

text \<open>
  The links inside a rich text value: \<^verbatim>\<open>traverse\<close> pushes every value with
  \<^verbatim>\<open>v.sys.type === `Link`\<close> and descends into every other object and array.
\<close>

definition isRichTextLink :: "jsval \<Rightarrow> bool" where
  "isRichTextLink v =
     (truthy v \<and> truthy (getprop v ''sys'') \<and>
      getprop (getprop v ''sys'') ''type'' = JStr ''Link'')"

fun traverse :: "jsval \<Rightarrow> jsval list"
  and traverse_properties :: "(string \<times> jsval) list \<Rightarrow> jsval list"
  and traverse_items :: "jsval list \<Rightarrow> jsval list"
  and visit :: "jsval \<Rightarrow> jsval list" where
  "traverse (JObj kvs) = traverse_properties kvs"
| "traverse (JArr xs) = traverse_items xs"
| "traverse _ = []"
| "traverse_properties [] = []"
| "traverse_properties (kv # kvs) = visit (snd kv) @ traverse_properties kvs"
| "traverse_items [] = []"
| "traverse_items (x # xs) = visit x @ traverse_items xs"
| "visit v = (if isRichTextLink v then [v] else traverse v)"


text \<open>
  Step 5, child nodes by field type.  The state of the loop over the keys: the fields,
  the \<open>childrenNodes\<close> array shared by the entries of a locale, and the \<open>children\<close> of
  the entry node.  \<open>unchanged\<close> is the digest test
  \<^verbatim>\<open>existingNode?.internal?.contentDigest === entryItem.sys.updatedAt\<close> on \<^verbatim>\<open>getNode(id)\<close>.
\<close>

record build =
  entryItemFields :: obj
  childrenNodes :: "jsval list"
  children :: "jsval list"

definition unchanged :: "env \<Rightarrow> jsval list \<Rightarrow> string \<Rightarrow> entry_item \<Rightarrow> bool" where
  "unchanged E created i entryItem =
     (contentDigest_of (getNode E created i) = JStr (sys_updatedAt (sys entryItem)))"

text \<open>\<^verbatim>\<open>contentTypeItem.fields.find(...).type\<close>; \<open>None\<close> when \<^verbatim>\<open>find\<close> finds no field.\<close>

definition fieldType :: "args \<Rightarrow> string \<Rightarrow> string option" where
  "fieldType A entryItemFieldKey =
     map_option field_type
       (find (\<lambda>f. (if field_id f \<in> set (restrictedNodeFields A)
                    then conflictFieldPrefix A @ field_id f else field_id f) = entryItemFieldKey)
          (ct_fields (contentTypeItem A)))"

definition replace_by_node :: "string \<Rightarrow> jsval \<Rightarrow> obj \<Rightarrow> obj" where
  "replace_by_node k v fs = AList.delete k (AList.update (k @ ''___NODE'') v fs)"

definition text_field ::
  "env \<Rightarrow> args \<Rightarrow> locale_item \<Rightarrow> jsval list \<Rightarrow> entry_item \<Rightarrow> string \<Rightarrow> build \<Rightarrow> build" where
  "text_field E A l created entryItem k b =
     (let textNodeId = createNodeId E (entryNodeId E A l entryItem @ k @ ''TextNode'') in
      b\<lparr>childrenNodes :=
           (if unchanged E created textNodeId entryItem then childrenNodes b
            else childrenNodes b @
                 [prepareTextNode textNodeId (entryNodeId E A l entryItem)
                    (sys_updatedAt (sys entryItem)) (lookup (entryItemFields b) k)]),
         entryItemFields := replace_by_node k (JStr textNodeId) (entryItemFields b)\<rparr>)"

definition richText_field ::
  "env \<Rightarrow> args \<Rightarrow> locale_item \<Rightarrow> entry_item \<Rightarrow> string \<Rightarrow> build \<Rightarrow> error + build" where
  "richText_field E A l entryItem k b =
     (let fieldValue = lookup (entryItemFields b) k;
          rawReferences = traverse fieldValue
      in case map_err (mId_link E (code l) (defaultLocale A) (spaceId A))
                (filter (\<lambda>v. link_key E v \<in> resolvable A) rawReferences) of
           Inl e \<Rightarrow> Inl e
         | Inr resolvableReferenceIds \<Rightarrow>
             let richTextNodeId =
                   createNodeId E (entryNodeId E A l entryItem @ ''.'' @ k @ ''.richText'');
                 raw = stringify E fieldValue;
                 richTextNode =
                   JObj [(''id'', JStr richTextNodeId),
                         (''raw'', JStr raw),
                         (''references___NODE'', JArr (map JStr (dedupe resolvableReferenceIds))),
                         (''internal'',
                            JObj [(''type'', JStr ''ContentfulNodeTypeRichText''),
                                  (''contentDigest'', JStr (createContentDigest E raw))])]
             in Inr (b\<lparr>childrenNodes := childrenNodes b @ [richTextNode],
                        entryItemFields :=
                          AList.update (k @ ''___NODE'') (JStr richTextNodeId)
                            (AList.delete k (entryItemFields b))\<rparr>))"

definition json_field ::
  "env \<Rightarrow> args \<Rightarrow> locale_item \<Rightarrow> jsval list \<Rightarrow> entry_item \<Rightarrow> string \<Rightarrow> build \<Rightarrow> build" where
  "json_field E A l created entryItem k b =
     (let jsonNodeId = createNodeId E (entryNodeId E A l entryItem @ k @ ''JSONNode'') in
      if unchanged E created jsonNodeId entryItem
      then b\<lparr>entryItemFields := replace_by_node k (JStr jsonNodeId) (entryItemFields b)\<rparr>
      else b\<lparr>childrenNodes :=
                childrenNodes b @
                [prepareJSONNode E jsonNodeId (entryNodeId E A l entryItem)
                   (sys_updatedAt (sys entryItem)) (lookup (entryItemFields b) k)],
              children := children b @ [JStr jsonNodeId],
              entryItemFields := replace_by_node k (JStr jsonNodeId) (entryItemFields b)\<rparr>)"

text \<open>One element of an array of JSON values: the callback of the inner \<^verbatim>\<open>forEach\<close>.\<close>

definition json_element ::
  "env \<Rightarrow> args \<Rightarrow> locale_item \<Rightarrow> jsval list \<Rightarrow> entry_item \<Rightarrow> string \<Rightarrow>
   build \<Rightarrow> (nat \<times> jsval) \<Rightarrow> build" where
  "json_element E A l created entryItem k b ix =
     (let jsonNodeId =
            createNodeId E (entryNodeId E A l entryItem @ k @ show_nat (fst ix) @ ''JSONNode'');
          b' = (if unchanged E created jsonNodeId entryItem then b
                else b\<lparr>childrenNodes :=
                          childrenNodes b @
                          [prepareJSONNode E jsonNodeId (entryNodeId E A l entryItem)
                             (sys_updatedAt (sys entryItem)) (snd ix)],
                        children := children b @ [JStr jsonNodeId]\<rparr>)
      in b'\<lparr>entryItemFields :=
              AList.update (k @ ''___NODE'')
                (case lookup (entryItemFields b') (k @ ''___NODE'') of
                   JArr ids \<Rightarrow> JArr (ids @ [JStr jsonNodeId])
                 | other \<Rightarrow> other)
                (entryItemFields b')\<rparr>)"

definition json_array_field ::
  "env \<Rightarrow> args \<Rightarrow> locale_item \<Rightarrow> jsval list \<Rightarrow> entry_item \<Rightarrow> string \<Rightarrow> jsval list \<Rightarrow>
   build \<Rightarrow> build" where
  "json_array_field E A l created entryItem k xs b =
     (let b1 = b\<lparr>entryItemFields := AList.update (k @ ''___NODE'') (JArr []) (entryItemFields b)\<rparr>;
          b2 = foldl (json_element E A l created entryItem k) b1 (enumerate 0 xs)
      in b2\<lparr>entryItemFields := AList.delete k (entryItemFields b2)\<rparr>)"

definition location_field ::
  "env \<Rightarrow> args \<Rightarrow> locale_item \<Rightarrow> jsval list \<Rightarrow> entry_item \<Rightarrow> string \<Rightarrow> build \<Rightarrow>
   error + build" where
  "location_field E A l created entryItem k b =
     (let locationNodeId = createNodeId E (entryNodeId E A l entryItem @ k @ ''Location'') in
      if unchanged E created locationNodeId entryItem
      then Inr (b\<lparr>entryItemFields :=
                     replace_by_node k (JStr locationNodeId) (entryItemFields b)\<rparr>)
      else (case prepareLocationNode locationNodeId (entryNodeId E A l entryItem)
                   (sys_updatedAt (sys entryItem)) (lookup (entryItemFields b) k) of
              Inl e \<Rightarrow> Inl e
            | Inr locationNode \<Rightarrow>
                Inr (b\<lparr>childrenNodes := childrenNodes b @ [locationNode],
                       entryItemFields :=
                         replace_by_node k (JStr locationNodeId) (entryItemFields b)\<rparr>)))"

text \<open>
  The callback of the \<^verbatim>\<open>forEach\<close> over the keys: a key with \<^verbatim>\<open>___\<close> in it is passed
  over; the second revision has the \<open>Text\<close> branch only.
\<close>

definition is_plain_object :: "jsval \<Rightarrow> bool" where
  "is_plain_object v = (case v of JObj _ \<Rightarrow> True | _ \<Rightarrow> False)"

fun is_array :: "jsval \<Rightarrow> bool" where
  "is_array (JArr _) = True"
| "is_array _ = False"

fun array_items :: "jsval \<Rightarrow> jsval list" where
  "array_items (JArr xs) = xs"
| "array_items _ = []"

definition node_field ::
  "revision \<Rightarrow> env \<Rightarrow> args \<Rightarrow> locale_item \<Rightarrow> jsval list \<Rightarrow> entry_item \<Rightarrow> string \<Rightarrow>
   build \<Rightarrow> error + build" where
  "node_field R E A l created entryItem k b =
     (if str_includes k ''___'' then Inr b
      else
        case fieldType A k of
          None \<Rightarrow> Inl TypeError
        | Some t \<Rightarrow>
            if t = ''Text'' then Inr (text_field E A l created entryItem k b)
            else if R = SysInline then Inr b
            else if t = ''RichText'' \<and> is_plain_object (lookup (entryItemFields b) k)
            then richText_field E A l entryItem k b
            else if t = ''Object'' \<and> is_plain_object (lookup (entryItemFields b) k)
            then Inr (json_field E A l created entryItem k b)
            else if t = ''Object'' \<and> is_array (lookup (entryItemFields b) k)
            then Inr (json_array_field E A l created entryItem k
                        (array_items (lookup (entryItemFields b) k)) b)
            else if t = ''Location'' then location_field E A l created entryItem k b
            else Inr b)"

definition node_fields ::
  "revision \<Rightarrow> env \<Rightarrow> args \<Rightarrow> locale_item \<Rightarrow> jsval list \<Rightarrow> entry_item \<Rightarrow> build \<Rightarrow>
   error + build" where
  "node_fields R E A l created entryItem b =
     fold_err (node_field R E A l created entryItem) (map fst (entryItemFields b)) b"


text \<open>
  Step 6, the entry node: the fields, the core attributes over them, \<open>node_locale\<close>;
  then the digest (first revision) and the tags.  \<^verbatim>\<open>entryItem.metadata.tags\<close> throws
  when the entry has no \<open>metadata\<close>.
\<close>

definition set_contentDigest :: "string \<Rightarrow> obj \<Rightarrow> obj" where
  "set_contentDigest d entryNode =
     (case lookup entryNode ''internal'' of
        JObj internal \<Rightarrow>
          AList.update ''internal'' (JObj (AList.update ''contentDigest'' (JStr d) internal))
            entryNode
      | _ \<Rightarrow> entryNode)"

definition merge_entryNode ::
  "revision \<Rightarrow> env \<Rightarrow> args \<Rightarrow> locale_item \<Rightarrow> entry_item \<Rightarrow> build \<Rightarrow> obj" where
  "merge_entryNode R E A l entryItem b =
     (let entryNode =
            spread (spread (entryItemFields b) (core_attributes R E A l entryItem (children b)))
              [(''node_locale'', JStr (code l))]
      in case R of
           SysNode \<Rightarrow> set_contentDigest (sys_updatedAt (sys entryItem)) entryNode
         | SysInline \<Rightarrow> entryNode)"

definition link_tags :: "env \<Rightarrow> args \<Rightarrow> entry_item \<Rightarrow> obj \<Rightarrow> error + obj" where
  "link_tags E A entryItem entryNode =
     (if enableTags A
      then (case metadata_tags entryItem of
              None \<Rightarrow> Inl TypeError
            | Some tags \<Rightarrow>
                Inr (AList.update ''metadata''
                       (JObj [(''tags___NODE'',
                               JArr (map (\<lambda>tag. JStr (createNodeId E
                                      (''ContentfulTag__'' @ spaceId A @ ''__'' @ tag))) tags))])
                       entryNode))
      else Inr entryNode)"

text \<open>
  The callback of \<^verbatim>\<open>entries.map\<close>: \<open>None\<close> for the \<open>null\<close> of an entry whose node has
  the entry's digest already, with \<open>childrenNodes\<close> as the entry leaves it.
\<close>

definition entry_node ::
  "revision \<Rightarrow> env \<Rightarrow> args \<Rightarrow> locale_item \<Rightarrow> jsval list \<Rightarrow> entry_item \<Rightarrow> jsval list \<Rightarrow>
   error + (jsval option \<times> jsval list)" where
  "entry_node R E A l created entryItem cs =
     (if unchanged E created (entryNodeId E A l entryItem) entryItem then Inr (None, cs)
      else
        case linked_fields E A l entryItem of
          Inl e \<Rightarrow> Inl e
        | Inr fs \<Rightarrow>
            (case node_fields R E A l created entryItem
                    \<lparr> entryItemFields = fs,
                      childrenNodes =
                        (case R of SysNode \<Rightarrow> cs @ [sys_node E A l entryItem] | SysInline \<Rightarrow> cs),
                      children = [] \<rparr> of
               Inl e \<Rightarrow> Inl e
             | Inr b \<Rightarrow>
                 (case link_tags E A entryItem (merge_entryNode R E A l entryItem b) of
                    Inl e \<Rightarrow> Inl e
                  | Inr entryNode \<Rightarrow> Inr (Some (JObj entryNode), childrenNodes b))))"

definition contentTypeNode :: "env \<Rightarrow> args \<Rightarrow> jsval" where
  "contentTypeNode E A =
     JObj [(''id'', JStr (createNodeId E (contentTypeItemId A))),
           (''name'', JStr (ct_name (contentTypeItem A))),
           (''displayField'', ct_displayField (contentTypeItem A)),
           (''description'', ct_description (contentTypeItem A)),
           (''internal'',
              JObj [(''type'', JStr (makeTypeName E ''ContentType'')),
                    (''contentDigest'', JStr (ct_sys_updatedAt (contentTypeItem A)))])]"

text \<open>
  The callback of \<^verbatim>\<open>locales.forEach\<close>: the entries are mapped first, then \<open>createNode\<close>
  is called for the content type node, the entry nodes and the child nodes.  The result
  is the list of all nodes created so far.
\<close>

definition map_entry ::
  "revision \<Rightarrow> env \<Rightarrow> args \<Rightarrow> locale_item \<Rightarrow> jsval list \<Rightarrow> entry_item \<Rightarrow>
   jsval list \<times> jsval list \<Rightarrow> error + (jsval list \<times> jsval list)" where
  "map_entry R E A l created entryItem acc =
     (case entry_node R E A l created entryItem (snd acc) of
        Inl e \<Rightarrow> Inl e
      | Inr (entryNode, cs) \<Rightarrow>
          Inr (fst acc @ (case entryNode of None \<Rightarrow> [] | Some n \<Rightarrow> [n]), cs))"

definition locale_nodes ::
  "revision \<Rightarrow> env \<Rightarrow> args \<Rightarrow> jsval list \<Rightarrow> locale_item \<Rightarrow> error + jsval list" where
  "locale_nodes R E A created l =
     (case fold_err (map_entry R E A l created) (entries A) ([], []) of
        Inl e \<Rightarrow> Inl e
      | Inr (entryNodes, cs) \<Rightarrow> Inr (created @ [contentTypeNode E A] @ entryNodes @ cs))"

text \<open>
  \<^verbatim>\<open>createNodesForContentType\<close>: the nodes handed to \<open>createNode\<close>, in order, and the
  exception that ended the call, if one did.
\<close>

fun create_locales ::
  "revision \<Rightarrow> env \<Rightarrow> args \<Rightarrow> locale_item list \<Rightarrow> jsval list \<Rightarrow> jsval list \<times> error option" where
  "create_locales R E A [] created = (created, None)"
| "create_locales R E A (l # ls) created =
     (case locale_nodes R E A created l of
        Inl e \<Rightarrow> (created, Some e)
      | Inr created' \<Rightarrow> create_locales R E A ls created')"

definition createNodesForContentType ::
  "revision \<Rightarrow> env \<Rightarrow> args \<Rightarrow> jsval list \<times> error option" where
  "createNodesForContentType R E A = create_locales R E A (locales A) []"


subsection \<open>AssetNormalizer: createAssetNodes\<close>

text \<open>
  An asset: \<open>fields.file\<close>, \<open>fields.title\<close> and \<open>fields.description\<close> are objects from
  locale codes to values, or missing.
\<close>

record asset_item =
  asset_sys :: entity_sys
  fields_file :: "obj option"
  fields_title :: "obj option"
  fields_description :: "obj option"

text \<open>\<^verbatim>\<open>fields.f ? getField(fields.f) : d\<close>.\<close>

definition asset_field ::
  "locale_item list \<Rightarrow> locale_item \<Rightarrow> obj option \<Rightarrow> jsval \<Rightarrow> error + jsval" where
  "asset_field ls l f d =
     (case f of
        None \<Rightarrow> Inr d
      | Some field \<Rightarrow>
          (case getLocalizedField field (Code (code l)) (buildFallbackChain ls) of
             None \<Rightarrow> Inl RangeError
           | Some v \<Rightarrow> Inr v))"

definition assetNode ::
  "env \<Rightarrow> asset_item \<Rightarrow> string \<Rightarrow> locale_item list \<Rightarrow> string \<Rightarrow> locale_item \<Rightarrow> error + jsval" where
  "assetNode E assetItem dl ls sp l =
     (case asset_field ls l (fields_file assetItem) JNull of
        Inl e \<Rightarrow> Inl e
      | Inr file_value \<Rightarrow>
     (case asset_field ls l (fields_title assetItem) (JStr []) of
        Inl e \<Rightarrow> Inl e
      | Inr title \<Rightarrow>
     (case asset_field ls l (fields_description assetItem) (JStr []) of
        Inl e \<Rightarrow> Inl e
      | Inr description \<Rightarrow>
          Inr (JObj
            [(''contentful_id'', JStr (sys_id (asset_sys assetItem))),
             (''spaceId'', JStr sp),
             (''id'', JStr (mId E (code l) dl sp (sys_id (asset_sys assetItem))
                              (sys_type (asset_sys assetItem)))),
             (''createdAt'', JStr (sys_createdAt (asset_sys assetItem))),
             (''updatedAt'', JStr (sys_updatedAt (asset_sys assetItem))),
             (''parent'', JNull),
             (''children'', JArr []),
             (''file'', file_value),
             (''title'', title),
             (''description'', description),
             (''node_locale'', JStr (code l)),
             (''internal'',
                JObj [(''type'', JStr (makeTypeName E ''Asset'')),
                      (''contentDigest'', JStr (sys_updatedAt (asset_sys assetItem)))]),
             (''sys'',
                JObj ((''type'', JStr (sys_type (asset_sys assetItem))) #
                      (if truthy (sys_revision (asset_sys assetItem))
                       then [(''revision'', sys_revision (asset_sys assetItem))]
                       else [])))]))))"

text \<open>
  The callback of \<^verbatim>\<open>locales.forEach\<close>.  The first revision ends with
  \<^verbatim>\<open>createNodePromises.push(createNode(assetNode))\<close>.  The second ends with
  \<^verbatim>\<open>assetNode.internal.createNodePromises.push(createNode(assetNode))\<close>: \<open>internal\<close> has no
  \<open>createNodePromises\<close>, and reading \<open>push\<close> of \<open>undefined\<close> throws before the argument
  \<^verbatim>\<open>createNode(assetNode)\<close> is evaluated.
\<close>

definition asset_locale ::
  "revision \<Rightarrow> env \<Rightarrow> asset_item \<Rightarrow> string \<Rightarrow> locale_item list \<Rightarrow> string \<Rightarrow> locale_item \<Rightarrow>
   jsval list \<Rightarrow> error + jsval list" where
  "asset_locale R E assetItem dl ls sp l created =
     (case assetNode E assetItem dl ls sp l of
        Inl e \<Rightarrow> Inl e
      | Inr n \<Rightarrow> (case R of SysNode \<Rightarrow> Inr (created @ [n]) | SysInline \<Rightarrow> Inl TypeError))"

fun asset_locales ::
  "revision \<Rightarrow> env \<Rightarrow> asset_item \<Rightarrow> string \<Rightarrow> locale_item list \<Rightarrow> string \<Rightarrow>
   locale_item list \<Rightarrow> jsval list \<Rightarrow> jsval list \<times> error option" where
  "asset_locales R E assetItem dl ls sp [] created = (created, None)"
| "asset_locales R E assetItem dl ls sp (l # rest) created =
     (case asset_locale R E assetItem dl ls sp l created of
        Inl e \<Rightarrow> (created, Some e)
      | Inr created' \<Rightarrow> asset_locales R E assetItem dl ls sp rest created')"

definition createAssetNodes ::
  "revision \<Rightarrow> env \<Rightarrow> asset_item \<Rightarrow> string \<Rightarrow> locale_item list \<Rightarrow> string \<Rightarrow>
   jsval list \<times> error option" where
  "createAssetNodes R E assetItem dl ls sp = asset_locales R E assetItem dl ls sp ls []"

subsection \<open>Example data for the normalizers\<close>

definition example_env :: env where
  "example_env =
     \<lparr> createNodeId = (\<lambda>s. ''#'' @ s),
       createContentDigest = (\<lambda>s. ''digest:'' @ s),
       getNode = (\<lambda>created i. JUndefined),
       stringify = (\<lambda>v. ''{}''),
       JSON_stringify = (\<lambda>v. JStr ''{}''),
       toString = (\<lambda>v. ''[object Object]''),
       upperFirst_camelCase = (\<lambda>s. s),
       toLowerCase = (\<lambda>s. if s = ''Author'' then ''author'' else s) \<rparr>"

definition link_to :: "string \<Rightarrow> jsval" where
  "link_to i =
     JObj [(''sys'', JObj [(''type'', JStr ''Link''), (''linkType'', JStr ''Entry''),
                           (''id'', JStr i)])]"

definition example_sys :: "string \<Rightarrow> string \<Rightarrow> entity_sys" where
  "example_sys i ct =
     \<lparr> sys_id = i, sys_type = ''Entry'', sys_createdAt = ''T0'', sys_updatedAt = ''T1'',
       sys_revision = JNum 1, sys_contentType = Some ct \<rparr>"

definition author_type :: content_type_item where
  "author_type =
     \<lparr> ct_sys_id = ''author'', ct_sys_updatedAt = ''T0'', ct_name = ''Author'',
       ct_displayField = JStr ''post'', ct_description = JStr [],
       ct_fields = [\<lparr>field_id = ''post'', field_type = ''Link'', localized = False\<rparr>] \<rparr>"

definition post_type :: content_type_item where
  "post_type =
     \<lparr> ct_sys_id = ''post'', ct_sys_updatedAt = ''T0'', ct_name = ''Post'',
       ct_displayField = JStr ''author'', ct_description = JStr [],
       ct_fields = [\<lparr>field_id = ''author'', field_type = ''Text'', localized = False\<rparr>,
                    \<lparr>field_id = ''title'', field_type = ''Symbol'', localized = True\<rparr>] \<rparr>"

definition entry_A :: entry_item where
  "entry_A =
     \<lparr> sys = example_sys ''A'' ''author'',
       entry_fields = [(''post'', [(''en-US'', link_to ''B'')])],
       metadata_tags = None \<rparr>"

definition entry_B :: entry_item where
  "entry_B =
     \<lparr> sys = example_sys ''B'' ''post'',
       entry_fields = [(''author'', [(''en-US'', JStr ''Jane'')])],
       metadata_tags = None \<rparr>"

definition en_US :: locale_item where
  "en_US = \<lparr>code = ''en-US'', fallbackCode = CodeNull\<rparr>"

definition example_resolvable :: "string set" where
  "example_resolvable = {''A___Entry'', ''B___Entry''}"

definition post_args :: "foreign_reference_map \<Rightarrow> args" where
  "post_args m =
     \<lparr> contentTypeItem = post_type, restrictedNodeFields = [''id'', ''children'', ''parent'',
         ''fields'', ''internal''], conflictFieldPrefix = ''contentful'',
       entries = [entry_B], resolvable = example_resolvable, foreignReferenceMap = m,
       defaultLocale = ''en-US'', locales = [en_US], spaceId = ''sp'', useNameForId = True,
       enableTags = False \<rparr>"

definition synced_env :: env where
  "synced_env =
     example_env\<lparr>getNode :=
       (\<lambda>created i. JObj [(''id'', JStr i),
                           (''internal'', JObj [(''contentDigest'', JStr ''T1'')])])\<rparr>"

definition example_asset :: asset_item where
  "example_asset =
     \<lparr> asset_sys = \<lparr> sys_id = ''pic'', sys_type = ''Asset'', sys_createdAt = ''T0'',
                      sys_updatedAt = ''T1'', sys_revision = JNum 2, sys_contentType = None \<rparr>,
       fields_file = Some [(''en-US'', JObj [(''url'', JStr ''//images.ctfassets.net/a.jpg'')])],
       fields_title = Some [(''en-US'', JStr ''A picture'')],
       fields_description = None \<rparr>"

definition tricky_type :: content_type_item where
  "tricky_type =
     \<lparr> ct_sys_id = ''tricky'', ct_sys_updatedAt = ''T0'', ct_name = ''Tricky'',
       ct_displayField = JStr ''id'', ct_description = JStr [],
       ct_fields =
         map (\<lambda>k. \<lparr>field_id = k, field_type = ''Symbol'', localized = False\<rparr>)
           [''id'', ''spaceId'', ''contentful_id'', ''createdAt'', ''updatedAt'', ''parent'',
            ''children'', ''internal'', ''sys'', ''sys___NODE'', ''node_locale''] \<rparr>"

definition entry_D :: entry_item where
  "entry_D =
     \<lparr> sys = example_sys ''D'' ''tricky'',
       entry_fields =
         map (\<lambda>k. (k, [(''en-US'', JStr ''from the field'')]))
           [''id'', ''spaceId'', ''contentful_id'', ''createdAt'', ''updatedAt'', ''parent'',
            ''children'', ''internal'', ''sys'', ''sys___NODE'', ''node_locale''],
       metadata_tags = None \<rparr>"

definition tricky_args :: args where
  "tricky_args =
     \<lparr> contentTypeItem = tricky_type, restrictedNodeFields = [],
       conflictFieldPrefix = ''contentful'', entries = [entry_D],
       resolvable = example_resolvable, foreignReferenceMap = (\<lambda>k. []),
       defaultLocale = ''en-US'', locales = [en_US], spaceId = ''sp'', useNameForId = True,
       enableTags = False \<rparr>"


subsection \<open>The reverse references, as the spec describes them\<close>

text \<open>
  Following the spec (section 4.3): the reverse edges that \<^verbatim>\<open>buildForeignReferenceMap\<close>
  records for the entity of key \<open>K\<close>, in the order of discovery, content type by content
  type, entry by entry, field by field and, in an array of links, element by element.
  An edge is recorded for a default-locale value that is a link, or for each element of
  an array whose first element is a link, when the key of the target is resolvable.
\<close>

definition field_references ::
  "env \<Rightarrow> string set \<Rightarrow> string \<Rightarrow> string \<Rightarrow> foreign_reference \<Rightarrow> (string \<times> obj) \<Rightarrow>
   foreign_reference list" where
  "field_references E res dl K r kv =
     (case lookup (snd kv) dl of
        JArr xs \<Rightarrow>
          if isLink (first_item xs)
          then map (\<lambda>v. r) (filter (\<lambda>v. link_key E v = K \<and> K \<in> res) xs)
          else []
      | v \<Rightarrow> if isLink v \<and> link_key E v = K \<and> K \<in> res then [r] else [])"

definition entry_references ::
  "env \<Rightarrow> string set \<Rightarrow> string \<Rightarrow> string \<Rightarrow> string \<Rightarrow> string \<Rightarrow> entry_item \<Rightarrow>
   foreign_reference list" where
  "entry_references E res dl sp label K entryItem =
     concat (map (field_references E res dl K (reference_of label sp entryItem))
               (entry_fields entryItem))"

definition references_to ::
  "env \<Rightarrow> content_type_item list \<Rightarrow> entry_item list list \<Rightarrow> string set \<Rightarrow> string \<Rightarrow>
   string \<Rightarrow> bool \<Rightarrow> string \<Rightarrow> foreign_reference list" where
  "references_to E contentTypeItems entryList res dl sp u K =
     concat (map (\<lambda>ic. concat (map (entry_references E res dl sp
                                        (lowercase_id E u (snd ic)) K)
                                   (entryList ! fst ic)))
               (enumerate 0 contentTypeItems))"

text \<open>
  Following the spec (section 4.4, step 4): what the reverse merge makes of a field
  that holds \<open>existing\<close>, given the node ids of the entities that refer to the entry
  under the field's name.
\<close>

definition merge_references :: "jsval \<Rightarrow> jsval list \<Rightarrow> jsval" where
  "merge_references existing ids =
     (if ids = [] then existing
      else if truthy existing
      then (case existing of JArr xs \<Rightarrow> JArr (xs @ ids) | _ \<Rightarrow> existing)
      else JArr ids)"

subsection \<open>Example data for the reverse references\<close>

definition entry_C :: entry_item where
  "entry_C =
     \<lparr> sys = example_sys ''C'' ''author'',
       entry_fields = [(''post'', [(''en-US'', JArr [link_to ''B'', link_to ''Z''])])],
       metadata_tags = None \<rparr>"

definition entry_B2 :: entry_item where
  "entry_B2 =
     \<lparr> sys = example_sys ''B'' ''post'',
       entry_fields = [(''title'', [(''en-US'', JStr ''Hello'')])],
       metadata_tags = None \<rparr>"

definition example_map :: "entry_item list \<Rightarrow> foreign_reference_map" where
  "example_map posts =
     references_to example_env [author_type, post_type] [[entry_A, entry_C], posts]
       example_resolvable ''en-US'' ''sp'' True"

section \<open>Part II: the theorems\<close>

subsection \<open>The image resolvers\<close>






































subsection \<open>The placeholder cache\<close>

lemma example_props_includes: "str_includes (baseUrl example_props) ''images.ctfassets.net''"
  by (simp add: example_props_def)

lemma example_fresh:
  "\<not> truthy_str (resolvedBase64Cache empty_cache (placeholder_url (baseUrl example_props))) \<and>
   inFlightBase64Cache empty_cache (placeholder_url (baseUrl example_props)) = None \<and>
   outcomes empty_cache (length (fetches empty_cache)) = None"
  by (simp add: empty_cache_def)


text \<open>
  Claim C8.  For a URL of the image API, \<^verbatim>\<open>getBase64Image\<close> returns the cached body
  at once when the resolved map holds one; returns the promise registered in the
  in-flight map, changing nothing, when the URL is in flight; and otherwise dispatches
  one fetch and registers its promise as in flight, so that a second request made
  before the first has settled dispatches none: the two requests cause exactly one
  fetch.  The first caller holds the promise derived by \<^verbatim>\<open>.then\<close>, later callers the
  load's own promise.
\<close>

theorem getBase64Image_coalesces:
  assumes "str_includes (baseUrl props) ''images.ctfassets.net''"
  shows
    "(\<forall>body. resolvedBase64Cache s (placeholder_url (baseUrl props)) = Some body \<and> body \<noteq> [] \<longrightarrow>
        getBase64Image (Some props) s = (ReturnBody body, s)) \<and>
     (\<forall>p. \<not> truthy_str (resolvedBase64Cache s (placeholder_url (baseUrl props))) \<and>
          inFlightBase64Cache s (placeholder_url (baseUrl props)) = Some p \<longrightarrow>
        getBase64Image (Some props) s = (ReturnPromise p, s)) \<and>
     (\<not> truthy_str (resolvedBase64Cache s (placeholder_url (baseUrl props))) \<and>
      inFlightBase64Cache s (placeholder_url (baseUrl props)) = None \<longrightarrow>
        (let (r1, s1) = getBase64Image (Some props) s;
             (r2, s2) = getBase64Image (Some props) s1
         in r1 = ReturnPromise (ThenPromise (length (fetches s))) \<and>
            fetches s1 = fetches s @ [placeholder_url (baseUrl props)] \<and>
            inFlightBase64Cache s1 =
              (inFlightBase64Cache s)(placeholder_url (baseUrl props) \<mapsto>
                 LoadPromise (length (fetches s))) \<and>
            resolvedBase64Cache s1 = resolvedBase64Cache s \<and>
            outcomes s1 = outcomes s \<and>
            r2 = ReturnPromise (LoadPromise (length (fetches s))) \<and>
            s2 = s1))"
  using assms
  by (auto simp add: getBase64Image_def Let_def split: option.splits)


theorem getBase64Image_coalesces_witness:
  "str_includes (baseUrl example_props) ''images.ctfassets.net'' \<and>
   fst coalescing_run =
     (ReturnPromise (ThenPromise 0), ReturnPromise (LoadPromise 0),
      ReturnBody ''data:image/jpeg;base64,AAAA'') \<and>
   fetches (snd coalescing_run) = [placeholder_url (baseUrl example_props)]"
proof -
  define u where "u = placeholder_url (baseUrl example_props)"
  define s1 where "s1 = snd (getBase64Image (Some example_props) empty_cache)"
  define s3 where "s3 = load_fulfils 0 ''AAAA'' s1"
  note t = getBase64Image_coalesces [OF example_props_includes]
  have fresh: "\<not> truthy_str (resolvedBase64Cache empty_cache u)"
      "inFlightBase64Cache empty_cache u = None"
    using example_fresh by (simp_all add: u_def)
  from t [of empty_cache] fresh
  have a: "getBase64Image (Some example_props) empty_cache = (ReturnPromise (ThenPromise 0), s1)"
    and b: "getBase64Image (Some example_props) s1 = (ReturnPromise (LoadPromise 0), s1)"
    and f1: "fetches s1 = [u]"
    and i1: "inFlightBase64Cache s1 = (inFlightBase64Cache empty_cache)(u \<mapsto> LoadPromise 0)"
    and o1: "outcomes s1 = outcomes empty_cache"
    unfolding s1_def u_def
    by (auto simp add: Let_def empty_cache_def split: prod.splits)
  have p: "is_pending 0 s1"
    by (simp add: is_pending_def f1 o1 empty_cache_def)
  have r3: "resolvedBase64Cache s3 u = Some ''data:image/jpeg;base64,AAAA''"
    and f3: "fetches s3 = [u]"
    by (simp_all add: s3_def load_fulfils_def p Let_def f1)
  from t [of s3] r3
  have c: "getBase64Image (Some example_props) s3 = (ReturnBody ''data:image/jpeg;base64,AAAA'', s3)"
    unfolding u_def by simp
  show ?thesis
    using example_props_includes
    by (simp add: coalescing_run_def a b c f3 s3_def[symmetric] u_def[symmetric])
qed


text \<open>
  Claim C2, as the code has it.  When the load of a freshly dispatched URL rejects,
  the rejection reaches every waiter (the first caller's derived promise and the
  in-flight promise that later callers get); the URL stays in the in-flight map and
  is not put into the resolved map; a later call with the same URL returns the
  rejected in-flight promise and dispatches no new fetch.
\<close>

theorem rejected_load_stays_in_flight:
  assumes "str_includes (baseUrl props) ''images.ctfassets.net''"
    and "\<not> truthy_str (resolvedBase64Cache s (placeholder_url (baseUrl props)))"
    and "inFlightBase64Cache s (placeholder_url (baseUrl props)) = None"
    and "outcomes s (length (fetches s)) = None"
  shows
    "(let (r1, s1) = getBase64Image (Some props) s;
          n = length (fetches s);
          s2 = load_rejects n err s1;
          (r3, s3) = getBase64Image (Some props) s2
      in r1 = ReturnPromise (ThenPromise n) \<and>
         promise_state s2 (ThenPromise n) = Rejected err \<and>
         promise_state s2 (LoadPromise n) = Rejected err \<and>
         inFlightBase64Cache s2 (placeholder_url (baseUrl props)) = Some (LoadPromise n) \<and>
         resolvedBase64Cache s2 = resolvedBase64Cache s \<and>
         r3 = ReturnPromise (LoadPromise n) \<and>
         s3 = s2 \<and>
         fetches s3 = fetches s @ [placeholder_url (baseUrl props)])"
  using assms
  by (auto simp add: getBase64Image_def load_rejects_def is_pending_def Let_def
      split: option.splits)

theorem rejected_load_stays_in_flight_witness:
  "str_includes (baseUrl example_props) ''images.ctfassets.net'' \<and>
   \<not> truthy_str (resolvedBase64Cache empty_cache (placeholder_url (baseUrl example_props))) \<and>
   inFlightBase64Cache empty_cache (placeholder_url (baseUrl example_props)) = None \<and>
   outcomes empty_cache (length (fetches empty_cache)) = None \<and>
   fst rejecting_run = ReturnPromise (LoadPromise 0) \<and>
   promise_state (snd rejecting_run) (LoadPromise 0) = Rejected ''ECONNRESET'' \<and>
   fetches (snd rejecting_run) = [placeholder_url (baseUrl example_props)]"
  using example_props_includes example_fresh
    rejected_load_stays_in_flight [OF example_props_includes, of empty_cache "''ECONNRESET''"]
  by (simp add: rejecting_run_def Let_def empty_cache_def split: prod.splits)


text \<open>
  Claim C2 as stated fails: after a rejected load the URL is still in the in-flight
  map, and the next call for it returns the rejected promise with still one fetch
  dispatched in all.
\<close>

theorem failed_fetch_not_retried_counterexample:
  "inFlightBase64Cache
     (load_rejects 0 ''ECONNRESET'' (snd (getBase64Image (Some example_props) empty_cache)))
     (placeholder_url (baseUrl example_props)) = Some (LoadPromise 0) \<and>
   fst rejecting_run = ReturnPromise (LoadPromise 0) \<and>
   length (fetches (snd rejecting_run)) = 1"
  by (simp add: rejecting_run_def getBase64Image_def load_rejects_def is_pending_def Let_def
      empty_cache_def example_props_def)


subsection \<open>LocaleResolver\<close>

lemma getLocalizedField_terminates:
  assumes "wf (fallback_step fb)"
  shows "\<exists>v. getLocalizedField field c fb = Some v"
  using assms
proof (induction c rule: wf_induct_rule)
  case (less c)
  show ?case
  proof (cases "lookup field (prop_key c) = JUndefined \<and> c \<noteq> CodeUndefined \<and>
                fb (prop_key c) \<noteq> CodeUndefined")
    case True
    then have "(fb (prop_key c), c) \<in> fallback_step fb" by (simp add: fallback_step_def)
    from less(1)[OF this] True show ?thesis
      by (subst getLocalizedField.simps) simp
  next
    case False
    then show ?thesis by (subst getLocalizedField.simps) auto
  qed
qed

lemma example_fallback:
  "buildFallbackChain example_locales =
     (\<lambda>k. if k = ''de'' then Code ''en-US'' else if k = ''en-US'' then CodeNull else CodeUndefined)"
  by (auto simp add: buildFallbackChain_def example_locales_def)

lemma wf_example_fallback: "wf (fallback_step (buildFallbackChain example_locales))"
proof (rule wf_subset [OF wf_measure])
  show "fallback_step (buildFallbackChain example_locales)
        \<subseteq> measure (\<lambda>c. if c = Code ''de'' then 2 else if c = Code ''en-US'' then 1 else 0)"
  proof
    fix p assume p: "p \<in> fallback_step (buildFallbackChain example_locales)"
    obtain c' c where pc: "p = (c', c)" by (cases p)
    from p pc have c: "c \<noteq> CodeUndefined"
      "buildFallbackChain example_locales (prop_key c) \<noteq> CodeUndefined"
      "c' = buildFallbackChain example_locales (prop_key c)"
      by (simp_all add: fallback_step_def)
    then show "p \<in> measure (\<lambda>c. if c = Code ''de'' then 2 else if c = Code ''en-US'' then 1 else 0)"
      unfolding pc example_fallback
      by (cases c) (auto split: if_splits)
  qed
qed

lemma cyclic_fallback:
  "buildFallbackChain cyclic_locales ''a'' = Code ''b''"
  "buildFallbackChain cyclic_locales ''b'' = Code ''a''"
  by (simp_all add: buildFallbackChain_def cyclic_locales_def)

lemma cyclic_never_returns:
  assumes "getLocalizedField field c fb = Some w"
  shows "field = [] \<longrightarrow> fb = buildFallbackChain cyclic_locales \<longrightarrow>
         c \<notin> {Code ''a'', Code ''b''}"
proof (rule getLocalizedField.raw_induct
    [where P = "\<lambda>field c fb w. field = [] \<longrightarrow> fb = buildFallbackChain cyclic_locales \<longrightarrow>
         c \<notin> {Code ''a'', Code ''b''}", OF _ assms])
  fix g field c fb w
  assume ih: "\<And>field c fb w. g field c fb = Some w \<Longrightarrow>
      field = [] \<longrightarrow> fb = buildFallbackChain cyclic_locales \<longrightarrow> c \<notin> {Code ''a'', Code ''b''}"
    and step: "(if lookup field (prop_key c) \<noteq> JUndefined
                  then Some (lookup field (prop_key c))
                  else if c \<noteq> CodeUndefined \<and> fb (prop_key c) \<noteq> CodeUndefined
                       then g field (fb (prop_key c)) fb
                       else Some JNull) = Some w"
  show "field = [] \<longrightarrow> fb = buildFallbackChain cyclic_locales \<longrightarrow>
         c \<notin> {Code ''a'', Code ''b''}"
  proof (intro impI notI)
    assume a: "field = []" "fb = buildFallbackChain cyclic_locales"
      and c: "c \<in> {Code ''a'', Code ''b''}"
    from a c step have "g field (fb (prop_key c)) fb = Some w"
      by (auto simp: cyclic_fallback lookup_def)
    from ih [OF this] a have "fb (prop_key c) \<notin> {Code ''a'', Code ''b''}" by blast
    with a c show False by (auto simp: cyclic_fallback)
  qed
qed

text \<open>
  Claim C3, as the code has it.  \<^verbatim>\<open>getLocalizedField\<close> returns the value at the locale's
  code when the field bag has one; otherwise, when the locale has a fallback, it returns
  what the call with the fallback returns; otherwise it returns \<open>null\<close>.  When the
  fallback map has no cycle (the fallback relation is well-founded) the call returns.
  Nothing detects a revisited locale.
\<close>

theorem getLocalizedField_fallback:
  "(lookup field (prop_key c) \<noteq> JUndefined \<longrightarrow>
      getLocalizedField field c fb = Some (lookup field (prop_key c))) \<and>
   (lookup field (prop_key c) = JUndefined \<and> c \<noteq> CodeUndefined \<and>
    fb (prop_key c) \<noteq> CodeUndefined \<longrightarrow>
      getLocalizedField field c fb = getLocalizedField field (fb (prop_key c)) fb) \<and>
   (lookup field (prop_key c) = JUndefined \<and>
    (c = CodeUndefined \<or> fb (prop_key c) = CodeUndefined) \<longrightarrow>
      getLocalizedField field c fb = Some JNull) \<and>
   (wf (fallback_step fb) \<longrightarrow> (\<exists>v. getLocalizedField field c fb = Some v))"
proof -
  have 1: "getLocalizedField field c fb = Some (lookup field (prop_key c))"
    if "lookup field (prop_key c) \<noteq> JUndefined"
    using that by (subst getLocalizedField.simps) simp
  have 2: "getLocalizedField field c fb = getLocalizedField field (fb (prop_key c)) fb"
    if "lookup field (prop_key c) = JUndefined \<and> c \<noteq> CodeUndefined \<and>
        fb (prop_key c) \<noteq> CodeUndefined"
    using that by (subst getLocalizedField.simps) simp
  have 3: "getLocalizedField field c fb = Some JNull"
    if "lookup field (prop_key c) = JUndefined \<and>
        (c = CodeUndefined \<or> fb (prop_key c) = CodeUndefined)"
    using that by (subst getLocalizedField.simps) auto
  have 4: "\<exists>v. getLocalizedField field c fb = Some v" if "wf (fallback_step fb)"
    using that by (rule getLocalizedField_terminates)
  from 1 2 3 4 show ?thesis by blast
qed

theorem getLocalizedField_fallback_witness:
  "wf (fallback_step (buildFallbackChain example_locales)) \<and>
   getLocalizedField [(''en-US'', JStr ''hello'')] (Code ''en-US'')
     (buildFallbackChain example_locales) = Some (JStr ''hello'') \<and>
   getLocalizedField [(''en-US'', JStr ''hello'')] (Code ''de'')
     (buildFallbackChain example_locales) = Some (JStr ''hello'') \<and>
   getLocalizedField [] CodeNull (buildFallbackChain example_locales) = Some JNull \<and>
   (\<exists>v. getLocalizedField [] (Code ''de'') (buildFallbackChain example_locales) = Some v)"
proof -
  define fb where "fb = buildFallbackChain example_locales"
  have fb: "fb ''de'' = Code ''en-US''" "fb ''en-US'' = CodeNull" "fb ''null'' = CodeUndefined"
    by (simp_all add: fb_def example_fallback)
  have l: "lookup [(''en-US'', JStr ''hello'')] ''en-US'' = JStr ''hello''"
    "lookup [(''en-US'', JStr ''hello'')] ''de'' = JUndefined"
    "lookup [] ''null'' = JUndefined"
    by (simp_all add: lookup_def)
  have w: "wf (fallback_step fb)"
    unfolding fb_def by (rule wf_example_fallback)
  have a: "getLocalizedField [(''en-US'', JStr ''hello'')] (Code ''en-US'') fb =
           Some (JStr ''hello'')"
    using getLocalizedField_fallback [of "[(''en-US'', JStr ''hello'')]" "Code ''en-US''" fb]
    by (simp add: l)
  have b: "getLocalizedField [(''en-US'', JStr ''hello'')] (Code ''de'') fb =
           getLocalizedField [(''en-US'', JStr ''hello'')] (Code ''en-US'') fb"
    using getLocalizedField_fallback [of "[(''en-US'', JStr ''hello'')]" "Code ''de''" fb]
    by (simp add: l fb)
  have c: "getLocalizedField [] CodeNull fb = Some JNull"
    using getLocalizedField_fallback [of "[]" CodeNull fb]
    by (simp add: l fb)
  have d: "\<exists>v. getLocalizedField [] (Code ''de'') fb = Some v"
    using getLocalizedField_fallback [of "[]" "Code ''de''" fb] w
    by blast
  from w a b c d show ?thesis
    unfolding fb_def by simp
qed

text \<open>
  Claim C3 as stated fails on a cycle: with \<open>a\<close> falling back to \<open>b\<close> and \<open>b\<close> to \<open>a\<close>,
  and a field bag with no value, the call does not return.
\<close>

theorem getLocalizedField_cycle_counterexample:
  "getLocalizedField [] (Code ''a'') (buildFallbackChain cyclic_locales) = None"
proof (cases "getLocalizedField [] (Code ''a'') (buildFallbackChain cyclic_locales)")
  case None
  then show ?thesis .
next
  case (Some v)
  from cyclic_never_returns [OF Some] show ?thesis by simp
qed

subsection \<open>Objects\<close>

lemma lookup_update: "lookup (AList.update k v al) k' = (if k' = k then v else lookup al k')"
  by (simp add: lookup_def update_conv')

lemma lookup_delete: "lookup (AList.delete k al) k' = (if k' = k then JUndefined else lookup al k')"
  by (simp add: lookup_def delete_conv')

lemma lookup_spread_other: "k \<notin> fst ` set b \<Longrightarrow> lookup (spread a b) k = lookup a k"
  unfolding spread_def
  by (induction b arbitrary: a) (auto simp: lookup_update split: prod.splits)

lemma lookup_spread_core:
  "distinct (map fst b) \<Longrightarrow> (k, v) \<in> set b \<Longrightarrow> lookup (spread a b) k = v"
proof (induction b arbitrary: a)
  case Nil
  then show ?case by simp
next
  case (Cons x b)
  obtain k' v' where x: "x = (k', v')" by (cases x)
  have s: "spread a (x # b) = spread (AList.update k' v' a) b"
    by (simp add: spread_def x)
  show ?case
  proof (cases "(k, v) \<in> set b")
    case True
    with Cons show ?thesis by (simp add: s)
  next
    case False
    with Cons.prems x have kv: "k = k'" "v = v'" by auto
    with Cons.prems x have "k \<notin> fst ` set b" by auto
    then show ?thesis by (simp add: s lookup_spread_other lookup_update kv)
  qed
qed

subsection \<open>Unchanged entries\<close>

lemma map_entry_unchanged:
  "unchanged E created (entryNodeId E A l e) e \<Longrightarrow> map_entry R E A l created e acc = Inr acc"
  by (simp add: map_entry_def entry_node_def)

lemma fold_map_entry_unchanged:
  "\<forall>e \<in> set es. unchanged E created (entryNodeId E A l e) e \<Longrightarrow>
     fold_err (map_entry R E A l created) es acc = Inr acc"
  by (induction es) (simp_all add: map_entry_unchanged)

lemma locale_nodes_unchanged:
  "\<forall>e \<in> set (entries A). unchanged E created (entryNodeId E A l e) e \<Longrightarrow>
     locale_nodes R E A created l = Inr (created @ [contentTypeNode E A])"
  by (simp add: locale_nodes_def fold_map_entry_unchanged)

lemma create_locales_unchanged:
  "\<forall>l \<in> set ls. \<forall>e \<in> set (entries A). \<forall>created. unchanged E created (entryNodeId E A l e) e \<Longrightarrow>
     create_locales R E A ls created = (created @ map (\<lambda>l. contentTypeNode E A) ls, None)"
proof (induction ls arbitrary: created)
  case Nil
  then show ?case by simp
next
  case (Cons l ls)
  then have "locale_nodes R E A created l = Inr (created @ [contentTypeNode E A])"
    by (intro locale_nodes_unchanged) simp
  with Cons show ?case by simp
qed

lemma contentTypeNode_digest:
  "contentDigest_of (contentTypeNode E A) = JStr (ct_sys_updatedAt (contentTypeItem A))"
  by (simp add: contentDigest_of_def contentTypeNode_def nullish_def lookup_def)

text \<open>
  Claim C4.  When for every locale and every entry the store has a node of the entry's
  id whose digest is the entry's \<open>updatedAt\<close>, \<^verbatim>\<open>createNodesForContentType\<close> throws
  nothing and creates the content type node, once per locale, and no other node: no
  entry node and no child node.  The digest of the content type node is the content
  type's \<open>updatedAt\<close>.
\<close>

theorem unchanged_entries_create_no_nodes:
  assumes "\<forall>l \<in> set (locales A). \<forall>e \<in> set (entries A). \<forall>created.
             unchanged E created (entryNodeId E A l e) e"
  shows "createNodesForContentType R E A = (map (\<lambda>l. contentTypeNode E A) (locales A), None) \<and>
         contentDigest_of (contentTypeNode E A) = JStr (ct_sys_updatedAt (contentTypeItem A))"
  using create_locales_unchanged [OF assms, of R "[]"] contentTypeNode_digest
  by (simp add: createNodesForContentType_def)

lemma synced_unchanged:
  "unchanged synced_env created i entry_B"
  by (simp add: unchanged_def synced_env_def contentDigest_of_def nullish_def lookup_def
      entry_B_def example_sys_def)


theorem unchanged_entries_create_no_nodes_witness:
  "locales (post_args (\<lambda>k. [])) = [en_US] \<and>
   entries (post_args (\<lambda>k. [])) = [entry_B] \<and>
   unchanged synced_env [] (entryNodeId synced_env (post_args (\<lambda>k. [])) en_US entry_B) entry_B \<and>
   createNodesForContentType SysNode synced_env (post_args (\<lambda>k. [])) =
     ([contentTypeNode synced_env (post_args (\<lambda>k. []))], None) \<and>
   createNodesForContentType SysInline synced_env (post_args (\<lambda>k. [])) =
     ([contentTypeNode synced_env (post_args (\<lambda>k. []))], None)"
proof -
  have h: "\<forall>l \<in> set (locales (post_args (\<lambda>k. []))). \<forall>e \<in> set (entries (post_args (\<lambda>k. []))).
             \<forall>created. unchanged synced_env created
               (entryNodeId synced_env (post_args (\<lambda>k. [])) l e) e"
    by (simp add: post_args_def synced_unchanged)
  show ?thesis
    using unchanged_entries_create_no_nodes [OF h, of SysNode]
      unchanged_entries_create_no_nodes [OF h, of SysInline] synced_unchanged
    by (simp add: post_args_def)
qed

subsection \<open>Core attributes\<close>

lemma core_attributes_distinct:
  "distinct (map fst (core_attributes R E A l e cs))"
  by (cases R) (simp_all add: core_attributes_def)

lemma lookup_link_tags:
  "link_tags E A e n = Inr n' \<Longrightarrow> k \<noteq> ''metadata'' \<Longrightarrow> lookup n' k = lookup n k"
  by (auto simp: link_tags_def lookup_update split: if_splits option.splits)

lemma lookup_merge_core:
  assumes "(k, v) \<in> set (core_attributes R E A l e (children b))" "k \<noteq> ''internal''"
  shows "lookup (merge_entryNode R E A l e b) k = v"
proof -
  have n: "k \<noteq> ''node_locale''"
    using assms(1) by (cases R) (auto simp: core_attributes_def)
  have "lookup (spread (spread (entryItemFields b) (core_attributes R E A l e (children b)))
                  [(''node_locale'', JStr (code l))]) k = v"
    using n assms(1)
    by (simp add: lookup_spread_other lookup_spread_core [OF core_attributes_distinct])
  then show ?thesis
    using assms(2)
    by (cases R)
      (auto simp: merge_entryNode_def Let_def set_contentDigest_def lookup_update
        split: jsval.splits)
qed

lemma lookup_merge_internal:
  "lookup (merge_entryNode R E A l e b) ''internal'' =
     JObj [(''type'', JStr (makeTypeName E (contentTypeItemId A))),
           (''contentDigest'', JStr (sys_updatedAt (sys e)))]"
proof -
  have i: "lookup (spread (spread (entryItemFields b) (core_attributes R E A l e (children b)))
                  [(''node_locale'', JStr (code l))]) ''internal'' =
        JObj ((''type'', JStr (makeTypeName E (contentTypeItemId A))) #
               (case R of SysNode \<Rightarrow> []
                | SysInline \<Rightarrow> [(''contentDigest'', JStr (sys_updatedAt (sys e)))]))"
    by (subst lookup_spread_other, simp)
      (rule lookup_spread_core [OF core_attributes_distinct], simp add: core_attributes_def)
  show ?thesis
    using i
    by (cases R) (simp_all add: merge_entryNode_def Let_def set_contentDigest_def lookup_update)
qed

lemma lookup_merge_node_locale:
  "lookup (merge_entryNode R E A l e b) ''node_locale'' = JStr (code l)"
  by (cases R)
    (auto simp: merge_entryNode_def Let_def set_contentDigest_def lookup_update
      lookup_spread_core split: jsval.splits)


text \<open>
  Claim C10.  In the node that \<^verbatim>\<open>createNodesForContentType\<close> builds for an entry, in
  either revision, \<open>id\<close>, \<open>spaceId\<close>, \<open>contentful_id\<close>, \<open>createdAt\<close>, \<open>updatedAt\<close>,
  \<open>parent\<close>, \<open>children\<close>, \<open>internal\<close> and the \<open>sys\<close> linkage have the values of the core
  attributes, whatever the entry's fields are named and hold.
\<close>

theorem core_attributes_win:
  assumes "entry_node R E A l created e cs = Inr (Some node, cs')"
  shows "\<exists>fs b.
           linked_fields E A l e = Inr fs \<and>
           node_fields R E A l created e
             \<lparr> entryItemFields = fs,
               childrenNodes = (case R of SysNode \<Rightarrow> cs @ [sys_node E A l e] | SysInline \<Rightarrow> cs),
               children = [] \<rparr> = Inr b \<and>
           getprop node ''id'' = JStr (entryNodeId E A l e) \<and>
           getprop node ''spaceId'' = JStr (spaceId A) \<and>
           getprop node ''contentful_id'' = JStr (sys_id (sys e)) \<and>
           getprop node ''createdAt'' = JStr (sys_createdAt (sys e)) \<and>
           getprop node ''updatedAt'' = JStr (sys_updatedAt (sys e)) \<and>
           getprop node ''parent'' = JStr (contentTypeItemId A) \<and>
           getprop node ''children'' = JArr (children b) \<and>
           getprop node ''internal'' =
             JObj [(''type'', JStr (makeTypeName E (contentTypeItemId A))),
                   (''contentDigest'', JStr (sys_updatedAt (sys e)))] \<and>
           (case R of
              SysNode \<Rightarrow> getprop node ''sys___NODE'' = JStr (sysId E A l e)
            | SysInline \<Rightarrow> getprop node ''sys'' = sys_inline E A e)"
proof -
  from assms obtain fs b entryNode where
    fs: "linked_fields E A l e = Inr fs"
    and b: "node_fields R E A l created e
             \<lparr> entryItemFields = fs,
               childrenNodes = (case R of SysNode \<Rightarrow> cs @ [sys_node E A l e] | SysInline \<Rightarrow> cs),
               children = [] \<rparr> = Inr b"
    and t: "link_tags E A e (merge_entryNode R E A l e b) = Inr entryNode"
    and n: "node = JObj entryNode"
    by (auto simp: entry_node_def split: if_splits sum.splits)
  have core: "lookup entryNode k = v"
    if "(k, v) \<in> set (core_attributes R E A l e (children b))" "k \<noteq> ''internal''" for k v
  proof -
    from that(1) have "k \<noteq> ''metadata''"
      by (cases R) (auto simp: core_attributes_def)
    with lookup_link_tags [OF t] lookup_merge_core [OF that] show ?thesis by simp
  qed
  have internal: "lookup entryNode ''internal'' =
             JObj [(''type'', JStr (makeTypeName E (contentTypeItemId A))),
                   (''contentDigest'', JStr (sys_updatedAt (sys e)))]"
    using lookup_link_tags [OF t, of "''internal''"] lookup_merge_internal [of R E A l e b]
    by simp
  have sys: "(case R of
              SysNode \<Rightarrow> lookup entryNode ''sys___NODE'' = JStr (sysId E A l e)
            | SysInline \<Rightarrow> lookup entryNode ''sys'' = sys_inline E A e)"
    by (cases R) (simp_all add: core core_attributes_def)
  show ?thesis
    apply (rule exI [of _ fs], rule exI [of _ b])
    using fs b internal sys
    by (cases R) (simp_all add: n core core_attributes_def)
qed

lemma entry_D_node:
  "(case entry_node SysNode example_env tricky_args en_US [] entry_D [] of
      Inr (Some n, c) \<Rightarrow> True | _ \<Rightarrow> False)"
  by code_simp


theorem core_attributes_win_witness:
  "\<exists>node cs'.
     entry_node SysNode example_env tricky_args en_US [] entry_D [] = Inr (Some node, cs') \<and>
     getprop node ''id'' = JStr ''#sp___D___Entry'' \<and>
     getprop node ''spaceId'' = JStr ''sp'' \<and>
     getprop node ''contentful_id'' = JStr ''D'' \<and>
     getprop node ''parent'' = JStr ''Tricky'' \<and>
     getprop node ''internal'' =
       JObj [(''type'', JStr ''Contentful Tricky''), (''contentDigest'', JStr ''T1'')] \<and>
     getprop node ''sys___NODE'' = JStr ''##sp___D___Entry.sys''"
proof -
  from entry_D_node obtain node cs' where
    n: "entry_node SysNode example_env tricky_args en_US [] entry_D [] = Inr (Some node, cs')"
    by (auto split: sum.splits option.splits)
  from core_attributes_win [OF n]
  have "getprop node ''id'' = JStr (entryNodeId example_env tricky_args en_US entry_D)"
    and "getprop node ''spaceId'' = JStr (spaceId tricky_args)"
    and "getprop node ''contentful_id'' = JStr (sys_id (sys entry_D))"
    and "getprop node ''parent'' = JStr (contentTypeItemId tricky_args)"
    and "getprop node ''internal'' =
           JObj [(''type'', JStr (makeTypeName example_env (contentTypeItemId tricky_args))),
                 (''contentDigest'', JStr (sys_updatedAt (sys entry_D)))]"
    and "getprop node ''sys___NODE'' = JStr (sysId example_env tricky_args en_US entry_D)"
    by auto
  then have "getprop node ''id'' = JStr ''#sp___D___Entry'' \<and>
     getprop node ''spaceId'' = JStr ''sp'' \<and>
     getprop node ''contentful_id'' = JStr ''D'' \<and>
     getprop node ''parent'' = JStr ''Tricky'' \<and>
     getprop node ''internal'' =
       JObj [(''type'', JStr ''Contentful Tricky''), (''contentDigest'', JStr ''T1'')] \<and>
     getprop node ''sys___NODE'' = JStr ''##sp___D___Entry.sys''"
    by (simp add: entryNodeId_def mId_def makeId_def startsWith_def sysId_def
        contentTypeItemId_def makeTypeName_def typePrefix_def
        tricky_args_def tricky_type_def entry_D_def example_sys_def example_env_def en_US_def)
  with n show ?thesis by blast
qed


subsection \<open>Asset nodes\<close>

lemma asset_field_returns:
  assumes "wf (fallback_step (buildFallbackChain ls))"
  shows "\<exists>v. asset_field ls l f d = Inr v"
proof (cases f)
  case None
  then show ?thesis by (simp add: asset_field_def)
next
  case (Some field)
  from getLocalizedField_terminates [OF assms, of field "Code (code l)"]
  obtain v where "getLocalizedField field (Code (code l)) (buildFallbackChain ls) = Some v"
    by blast
  with Some show ?thesis by (simp add: asset_field_def)
qed

lemma assetNode_returns:
  assumes "wf (fallback_step (buildFallbackChain ls))"
  shows "\<exists>n. assetNode E a dl ls sp l = Inr n"
proof -
  obtain x y z where "asset_field ls l (fields_file a) JNull = Inr x"
    "asset_field ls l (fields_title a) (JStr []) = Inr y"
    "asset_field ls l (fields_description a) (JStr []) = Inr z"
    using asset_field_returns [OF assms] by metis
  then show ?thesis by (simp add: assetNode_def)
qed

lemma assetNode_fields:
  assumes "assetNode E a dl ls sp l = Inr n"
  shows "contentDigest_of n = JStr (sys_updatedAt (asset_sys a))"
    and "getprop n ''children'' = JArr []"
    and "asset_field ls l (fields_file a) JNull = Inr (getprop n ''file'')"
    and "asset_field ls l (fields_title a) (JStr []) = Inr (getprop n ''title'')"
    and "asset_field ls l (fields_description a) (JStr []) = Inr (getprop n ''description'')"
  using assms
  by (auto simp: assetNode_def contentDigest_of_def nullish_def lookup_def split: sum.splits)

lemma asset_locales_first_revision:
  assumes "wf (fallback_step (buildFallbackChain ls))"
  shows "\<exists>ns. asset_locales SysNode E a dl ls sp rest created = (created @ ns, None) \<and>
              map Inr ns = map (assetNode E a dl ls sp) rest"
proof (induction rest arbitrary: created)
  case Nil
  then show ?case by simp
next
  case (Cons l rest)
  obtain n where n: "assetNode E a dl ls sp l = Inr n"
    using assetNode_returns [OF assms] by blast
  from Cons [of "created @ [n]"] obtain ns where
    "asset_locales SysNode E a dl ls sp rest (created @ [n]) = (created @ [n] @ ns, None)"
    "map Inr ns = map (assetNode E a dl ls sp) rest"
    by auto
  then show ?case
    by (intro exI [of _ "n # ns"]) (simp add: asset_locale_def n)
qed

lemma createAssetNodes_first_revision:
  assumes "wf (fallback_step (buildFallbackChain ls))"
  shows "\<exists>ns. createAssetNodes SysNode E a dl ls sp = (ns, None) \<and>
              map Inr ns = map (assetNode E a dl ls sp) ls"
  using asset_locales_first_revision [OF assms, of E a dl sp ls "[]"]
  by (simp add: createAssetNodes_def)

lemma createAssetNodes_second_revision:
  assumes "ls \<noteq> []"
  shows "\<exists>e. createAssetNodes SysInline E a dl ls sp = ([], Some e)"
proof -
  obtain l rest where "ls = l # rest" using assms by (cases ls) auto
  then show ?thesis
    by (auto simp: createAssetNodes_def asset_locale_def split: sum.splits)
qed

text \<open>
  Claim C9 on the second revision of \<^verbatim>\<open>createAssetNodes\<close>: for an asset and one
  locale the call throws a \<open>TypeError\<close> with no node created, where the first revision
  creates the asset node.
\<close>

theorem createAssetNodes_second_revision_throws:
  "createAssetNodes SysInline example_env example_asset ''en-US'' [en_US] ''sp'' =
     ([], Some TypeError) \<and>
   length (fst (createAssetNodes SysNode example_env example_asset ''en-US'' [en_US] ''sp'')) = 1"
  by code_simp

subsection \<open>Forward references\<close>

lemma fold_err_invariant:
  assumes "fold_err f xs s = Inr s'" "I xs s"
    and "\<And>x xs s t. I (x # xs) s \<Longrightarrow> f x s = Inr t \<Longrightarrow> I xs t"
  shows "I [] s'"
  using assms(1,2)
proof (induction xs arbitrary: s)
  case Nil
  then show ?case by simp
next
  case (Cons x xs)
  from Cons.prems(1) obtain t where t: "f x s = Inr t" "fold_err f xs t = Inr s'"
    by (auto split: sum.splits)
  from assms(3) [OF Cons.prems(2) t(1)] have "I xs t" .
  from Cons.IH [OF t(2) this] show ?case .
qed



lemma element_key_Inr: "element_key E v = Inr k \<Longrightarrow> k = link_key E v"
  by (auto simp: element_key_def split: if_splits)


lemma map_of_lookup: "map_of fs k = Some v \<Longrightarrow> lookup fs k = v"
  by (simp add: lookup_def)


lemma is_raw_link_truthy: "is_raw_link v \<Longrightarrow> truthy v"
  by (cases v) (auto simp: is_raw_link_def isLink_def)

lemma not_raw_JStr [simp]: "\<not> is_raw_link (JStr i)"
  by (simp add: is_raw_link_def isLink_def)

lemma not_raw_ids [simp]: "\<not> is_raw_link (JArr (map JStr ids))"
  by (cases ids) (simp_all add: is_raw_link_def isLink_def)














subsection \<open>Reverse references\<close>

lemma fold_err_appends:
  assumes "fold_err f xs s = Inr s'"
    and "\<And>x s t. x \<in> set xs \<Longrightarrow> f x s = Inr t \<Longrightarrow> t K = s K @ g x"
  shows "s' K = s K @ concat (map g xs)"
  using assms
proof (induction xs arbitrary: s)
  case Nil
  then show ?case by simp
next
  case (Cons x xs)
  from Cons.prems(1) obtain t where t: "f x s = Inr t" "fold_err f xs t = Inr s'"
    by (auto split: sum.splits)
  have "t K = s K @ g x" using Cons.prems(2) t(1) by simp
  moreover have "s' K = t K @ concat (map g xs)"
    using Cons.IH [OF t(2)] Cons.prems(2) by simp
  ultimately show ?case by simp
qed

lemma record_element_appends:
  assumes "record_element E res r v m = Inr t"
  shows "t K = m K @ (if link_key E v = K \<and> K \<in> res then [r] else [])"
  using assms
  by (auto simp: record_element_def push_reference_def split: sum.splits if_splits
      dest: element_key_Inr)

lemma concat_map_if:
  "concat (map (\<lambda>v. if P v then [r] else []) xs) = map (\<lambda>v. r) (filter P xs)"
  by (induction xs) simp_all

lemma record_field_appends:
  assumes "record_field E res dl r kv m = Inr t"
  shows "t K = m K @ field_references E res dl K r kv"
proof (cases "is_array (lookup (snd kv) dl)")
  case True
  then obtain xs where xs: "lookup (snd kv) dl = JArr xs"
    by (cases "lookup (snd kv) dl") auto
  show ?thesis
  proof (cases "isLink (first_item xs)")
    case l: True
    with assms xs have "fold_err (record_element E res r) xs m = Inr t"
      by (simp add: record_field_def)
    from fold_err_appends [OF this, of K "\<lambda>v. if link_key E v = K \<and> K \<in> res then [r] else []"]
    have "t K = m K @ concat (map (\<lambda>v. if link_key E v = K \<and> K \<in> res then [r] else []) xs)"
      using record_element_appends by blast
    with xs l show ?thesis
      by (simp add: field_references_def concat_map_if)
  next
    case False
    with assms xs show ?thesis
      by (simp add: record_field_def field_references_def)
  qed
next
  case False
  with assms show ?thesis
    by (cases "lookup (snd kv) dl")
      (auto simp: record_field_def field_references_def push_reference_def Let_def
        split: if_splits)
qed

lemma record_entry_appends:
  assumes "record_entry E res dl sp label e m = Inr t"
  shows "t K = m K @ entry_references E res dl sp label K e"
  using fold_err_appends [OF assms [unfolded record_entry_def], of K
      "field_references E res dl K (reference_of label sp e)"]
    record_field_appends
  by (simp add: entry_references_def)

lemma record_contentType_appends:
  assumes "record_contentType E entryList res dl sp u ic m = Inr t"
  shows "t K = m K @ concat (map (entry_references E res dl sp (lowercase_id E u (snd ic)) K)
                               (entryList ! fst ic))"
proof -
  from assms have
    "fold_err (record_entry E res dl sp (lowercase_id E u (snd ic))) (entryList ! fst ic) m = Inr t"
    by (simp add: record_contentType_def split: if_splits)
  from fold_err_appends [OF this, of K "entry_references E res dl sp (lowercase_id E u (snd ic)) K"]
    record_entry_appends
  show ?thesis by simp
qed

lemma buildForeignReferenceMap_references:
  assumes "buildForeignReferenceMap E cts entryList res dl sp u = Inr m"
  shows "m K = references_to E cts entryList res dl sp u K"
  using fold_err_appends [OF assms [unfolded buildForeignReferenceMap_def], of K
      "\<lambda>ic. concat (map (entry_references E res dl sp (lowercase_id E u (snd ic)) K)
                      (entryList ! fst ic))"]
    record_contentType_appends
  by (simp add: references_to_def)


lemma merge_references_step:
  "merge_references (merge_references existing [i]) ids = merge_references existing (i # ids)"
  by (cases existing) (simp_all add: merge_references_def)

lemma add_foreignReference_lookup:
  "lookup (add_foreignReference E A l fs r) name =
     (if fr_name r = name
      then merge_references (lookup fs name) [JStr (foreign_id E A l r)]
      else lookup fs name)"
  by (cases "lookup fs (fr_name r)")
    (auto simp: add_foreignReference_def merge_references_def Let_def lookup_update)

lemma foldl_add_foreignReference_lookup:
  "lookup (foldl (add_foreignReference E A l) fs refs) name =
     merge_references (lookup fs name)
       (map (\<lambda>r. JStr (foreign_id E A l r)) (filter (\<lambda>r. fr_name r = name) refs))"
proof (induction refs arbitrary: fs)
  case Nil
  then show ?case by (simp add: merge_references_def)
next
  case (Cons r refs)
  show ?case
    by (simp add: Cons.IH add_foreignReference_lookup merge_references_step)
qed

lemma add_foreignReferences_lookup:
  "lookup (add_foreignReferences E A l e fs) name =
     merge_references (lookup fs name)
       (map (\<lambda>r. JStr (foreign_id E A l r))
          (filter (\<lambda>r. fr_name r = name) (foreignReferenceMap A (entity_key (sys e)))))"
  by (simp add: add_foreignReferences_def foldl_add_foreignReference_lookup)

subsection \<open>Fields that the child nodes leave alone\<close>

lemma lookup_replace_by_node:
  "n \<noteq> k \<Longrightarrow> n \<noteq> k @ ''___NODE'' \<Longrightarrow> lookup (replace_by_node k v fs) n = lookup fs n"
  by (simp add: replace_by_node_def lookup_update lookup_delete)

lemma json_element_lookup:
  "n \<noteq> k @ ''___NODE'' \<Longrightarrow>
     lookup (entryItemFields (json_element E A l created e k b ix)) n = lookup (entryItemFields b) n"
  by (simp add: json_element_def Let_def lookup_update)

lemma foldl_json_element_lookup:
  "n \<noteq> k @ ''___NODE'' \<Longrightarrow>
     lookup (entryItemFields (foldl (json_element E A l created e k) b ixs)) n =
     lookup (entryItemFields b) n"
  by (induction ixs arbitrary: b) (simp_all add: json_element_lookup)

lemma json_array_field_lookup:
  "n \<noteq> k \<Longrightarrow> n \<noteq> k @ ''___NODE'' \<Longrightarrow>
     lookup (entryItemFields (json_array_field E A l created e k xs b)) n =
     lookup (entryItemFields b) n"
  by (simp add: json_array_field_def Let_def lookup_delete foldl_json_element_lookup lookup_update)

lemma text_field_lookup:
  "n \<noteq> k \<Longrightarrow> n \<noteq> k @ ''___NODE'' \<Longrightarrow>
     lookup (entryItemFields (text_field E A l created e k b)) n = lookup (entryItemFields b) n"
  by (simp add: text_field_def Let_def lookup_replace_by_node)

lemma json_field_lookup:
  "n \<noteq> k \<Longrightarrow> n \<noteq> k @ ''___NODE'' \<Longrightarrow>
     lookup (entryItemFields (json_field E A l created e k b)) n = lookup (entryItemFields b) n"
  by (simp add: json_field_def Let_def lookup_replace_by_node)

lemma richText_field_lookup:
  "richText_field E A l e k b = Inr b' \<Longrightarrow> n \<noteq> k \<Longrightarrow> n \<noteq> k @ ''___NODE'' \<Longrightarrow>
     lookup (entryItemFields b') n = lookup (entryItemFields b) n"
  by (auto simp: richText_field_def Let_def lookup_update lookup_delete split: sum.splits)

lemma location_field_lookup:
  "location_field E A l created e k b = Inr b' \<Longrightarrow> n \<noteq> k \<Longrightarrow> n \<noteq> k @ ''___NODE'' \<Longrightarrow>
     lookup (entryItemFields b') n = lookup (entryItemFields b) n"
  by (auto simp: location_field_def Let_def lookup_replace_by_node split: sum.splits if_splits)


lemma str_includes_append: "str_includes s sub \<Longrightarrow> str_includes (p @ s) sub"
  by (induction p) simp_all

lemma node_field_lookup:
  assumes step: "node_field R E A l created e k b = Inr b'"
    and name: "str_includes name ''___''"
    and other: "k @ ''___NODE'' = name \<longrightarrow> str_includes k ''___'' \<or>
            (\<forall>t. fieldType A k = Some t \<longrightarrow>
                 t \<notin> {''Text'', ''RichText'', ''Object'', ''Location''})"
  shows "lookup (entryItemFields b') name = lookup (entryItemFields b) name"
proof (cases "str_includes k ''___''")
  case True
  with step show ?thesis by (simp add: node_field_def)
next
  case False
  with name have k: "name \<noteq> k" by auto
  from step False obtain t where t: "fieldType A k = Some t"
    by (auto simp: node_field_def split: option.splits)
  show ?thesis
  proof (cases "k @ ''___NODE'' = name")
    case True
    with other False t have "t \<notin> {''Text'', ''RichText'', ''Object'', ''Location''}" by auto
    with step False t show ?thesis by (auto simp: node_field_def split: if_splits)
  next
    case n: False
    then have n': "name \<noteq> k @ ''___NODE''" by auto
    from step False t show ?thesis
      by (auto simp: node_field_def text_field_lookup [OF k n'] json_field_lookup [OF k n']
          json_array_field_lookup [OF k n']
          dest: richText_field_lookup [OF _ k n'] location_field_lookup [OF _ k n']
          split: if_splits)
  qed
qed

lemma node_fields_lookup:
  assumes run: "node_fields R E A l created e b = Inr b'"
    and name: "str_includes name ''___''"
    and other: "\<forall>k \<in> fst ` set (entryItemFields b). k @ ''___NODE'' = name \<longrightarrow>
            str_includes k ''___'' \<or>
            (\<forall>t. fieldType A k = Some t \<longrightarrow>
                 t \<notin> {''Text'', ''RichText'', ''Object'', ''Location''})"
  shows "lookup (entryItemFields b') name = lookup (entryItemFields b) name"
proof -
  define I where "I = (\<lambda>ks (c :: build). set ks \<subseteq> fst ` set (entryItemFields b) \<and>
     lookup (entryItemFields c) name = lookup (entryItemFields b) name)"
  have f: "fold_err (node_field R E A l created e) (map fst (entryItemFields b)) b = Inr b'"
    using run by (simp add: node_fields_def)
  have init: "I (map fst (entryItemFields b)) b"
    by (simp add: I_def)
  have step: "I ks t" if "I (k # ks) c" "node_field R E A l created e k c = Inr t" for k ks c t
  proof -
    from that(1) have k: "k \<in> fst ` set (entryItemFields b)" by (simp add: I_def)
    with other have "k @ ''___NODE'' = name \<longrightarrow> str_includes k ''___'' \<or>
            (\<forall>t. fieldType A k = Some t \<longrightarrow>
                 t \<notin> {''Text'', ''RichText'', ''Object'', ''Location''})" by blast
    from node_field_lookup [OF that(2) name this] that(1) show ?thesis
      by (simp add: I_def)
  qed
  have "I [] b'"
    by (rule fold_err_invariant [where I = I, OF f init]) (rule step)
  then show ?thesis by (simp add: I_def)
qed

lemma core_attributes_keys:
  "k \<in> fst ` set (core_attributes R E A l e cs) \<Longrightarrow> str_includes k ''___'' \<Longrightarrow>
     R = SysNode \<and> k = ''sys___NODE''"
  by (cases R) (auto simp: core_attributes_def)

lemma merge_entryNode_lookup:
  assumes "str_includes name ''___''" "R = SysNode \<longrightarrow> name \<noteq> ''sys___NODE''"
  shows "lookup (merge_entryNode R E A l e b) name = lookup (entryItemFields b) name"
proof -
  have c: "name \<notin> fst ` set (core_attributes R E A l e (children b))"
    using core_attributes_keys assms by blast
  have n: "name \<noteq> ''node_locale''" "name \<noteq> ''internal''"
    using assms(1) by auto
  have "lookup (spread (spread (entryItemFields b) (core_attributes R E A l e (children b)))
                  [(''node_locale'', JStr (code l))]) name = lookup (entryItemFields b) name"
    using c n by (simp add: lookup_spread_other)
  then show ?thesis
    using n
    by (cases R)
      (auto simp: merge_entryNode_def Let_def set_contentDigest_def lookup_update
        split: jsval.splits)
qed


text \<open>
  Claim C6, as the code has it.  \<^verbatim>\<open>buildForeignReferenceMap\<close> lists under the key of an
  entity, in the order of discovery, one reference for every resolvable link to it in a
  default-locale field value, named by the lower-cased label of the linking entry's
  content type with \<open>___NODE\<close> appended and carrying the linking entry's id.  The
  reverse merge leaves a field as it is when no reference has its name; otherwise it
  appends the referring node ids, in the map's order, to a list the field holds, leaves
  any other truthy value untouched, and puts the list of the ids where the field is
  missing or falsy.  The entry's node has the merged field when the name is not the
  core attribute \<open>sys___NODE\<close> and the entry has no field \<open>k\<close> of type \<open>Text\<close>, \<open>RichText\<close>,
  \<open>Object\<close> or \<open>Location\<close> with \<open>k___NODE\<close> the name: the child node of such a field is
  written over it.
\<close>

theorem reverse_references:
  "(buildForeignReferenceMap E cts entryList res dl sp u = Inr m \<longrightarrow>
      m K = references_to E cts entryList res dl sp u K) \<and>
   fr_name (reference_of label sp e') = label @ ''___NODE'' \<and>
   str_includes (label @ ''___NODE'') ''___'' \<and>
   lookup (add_foreignReferences E A l e fs) name =
     merge_references (lookup fs name)
       (map (\<lambda>r. JStr (foreign_id E A l r))
          (filter (\<lambda>r. fr_name r = name) (foreignReferenceMap A (entity_key (sys e))))) \<and>
   (entry_node R E A l created e cs = Inr (Some node, cs') \<and>
    forward_fields E A l e = Inr fs \<and>
    str_includes name ''___'' \<and>
    (R = SysNode \<longrightarrow> name \<noteq> ''sys___NODE'') \<and>
    (\<forall>k \<in> fst ` set (add_foreignReferences E A l e fs).
        k @ ''___NODE'' = name \<longrightarrow>
        str_includes k ''___'' \<or>
        (\<forall>t. fieldType A k = Some t \<longrightarrow>
             t \<notin> {''Text'', ''RichText'', ''Object'', ''Location''})) \<longrightarrow>
      getprop node name = lookup (add_foreignReferences E A l e fs) name)"
proof -
  have 1: "m K = references_to E cts entryList res dl sp u K"
    if "buildForeignReferenceMap E cts entryList res dl sp u = Inr m"
    using that by (rule buildForeignReferenceMap_references)
  have 2: "fr_name (reference_of label sp e') = label @ ''___NODE''"
    by (simp add: reference_of_def)
  have 3: "str_includes (label @ ''___NODE'') ''___''"
    by (rule str_includes_append) simp
  have 5: "getprop node name = lookup (add_foreignReferences E A l e fs) name"
    if h: "entry_node R E A l created e cs = Inr (Some node, cs') \<and>
      forward_fields E A l e = Inr fs \<and>
      str_includes name ''___'' \<and>
      (R = SysNode \<longrightarrow> name \<noteq> ''sys___NODE'') \<and>
      (\<forall>k \<in> fst ` set (add_foreignReferences E A l e fs).
        k @ ''___NODE'' = name \<longrightarrow>
        str_includes k ''___'' \<or>
        (\<forall>t. fieldType A k = Some t \<longrightarrow>
             t \<notin> {''Text'', ''RichText'', ''Object'', ''Location''}))"
  proof -
    define fs2 where "fs2 = add_foreignReferences E A l e fs"
    from h have lf: "linked_fields E A l e = Inr fs2"
      by (simp add: linked_fields_def fs2_def)
    with h obtain b entryNode where
      b: "node_fields R E A l created e
             \<lparr> entryItemFields = fs2,
               childrenNodes = (case R of SysNode \<Rightarrow> cs @ [sys_node E A l e] | SysInline \<Rightarrow> cs),
               children = [] \<rparr> = Inr b"
      and t: "link_tags E A e (merge_entryNode R E A l e b) = Inr entryNode"
      and n: "node = JObj entryNode"
      by (auto simp: entry_node_def split: if_splits sum.splits)
    from h have name: "str_includes name ''___''" by simp
    then have meta: "name \<noteq> ''metadata''" by auto
    have "lookup (entryItemFields b) name = lookup fs2 name"
      using node_fields_lookup [OF b name] h by (simp add: fs2_def)
    moreover have "lookup (merge_entryNode R E A l e b) name = lookup (entryItemFields b) name"
      using merge_entryNode_lookup [OF name] h by blast
    moreover have "lookup entryNode name = lookup (merge_entryNode R E A l e b) name"
      using lookup_link_tags [OF t meta] .
    ultimately show ?thesis by (simp add: n fs2_def)
  qed
  from 1 2 3 add_foreignReferences_lookup [of E A l e fs name] 5 show ?thesis
    by blast
qed


lemma example_map_B:
  "example_map [entry_B2] ''B___Entry'' =
     [\<lparr>fr_name = ''author___NODE'', fr_id = ''A'', fr_spaceId = ''sp'', fr_type = ''Entry''\<rparr>,
      \<lparr>fr_name = ''author___NODE'', fr_id = ''C'', fr_spaceId = ''sp'', fr_type = ''Entry''\<rparr>]"
  by code_simp

lemma example_build:
  "(case buildForeignReferenceMap example_env [author_type, post_type]
           [[entry_A, entry_C], [entry_B2]] example_resolvable ''en-US'' ''sp'' True of
      Inl e \<Rightarrow> False | Inr m \<Rightarrow> True)"
  by code_simp

lemma example_forward:
  "forward_fields example_env (post_args (example_map [entry_B2])) en_US entry_B2 =
     Inr [(''title'', JStr ''Hello'')]"
  by code_simp

lemma example_entry_node:
  "(case entry_node SysNode example_env (post_args (example_map [entry_B2])) en_US [] entry_B2 [] of
      Inr (Some n, c) \<Rightarrow> True | _ \<Rightarrow> False)"
  by code_simp

lemma example_fieldType:
  "fieldType (post_args (example_map [entry_B2])) ''title'' = Some ''Symbol''"
  by code_simp

lemma example_merged_keys:
  "map fst (add_foreignReferences example_env (post_args (example_map [entry_B2])) en_US entry_B2
      [(''title'', JStr ''Hello'')]) = [''title'', ''author___NODE'']"
  by code_simp


theorem reverse_references_witness:
  "buildForeignReferenceMap example_env [author_type, post_type]
     [[entry_A, entry_C], [entry_B2]] example_resolvable ''en-US'' ''sp'' True =
     Inr (example_map [entry_B2]) \<and>
   example_map [entry_B2] ''B___Entry'' =
     [\<lparr>fr_name = ''author___NODE'', fr_id = ''A'', fr_spaceId = ''sp'', fr_type = ''Entry''\<rparr>,
      \<lparr>fr_name = ''author___NODE'', fr_id = ''C'', fr_spaceId = ''sp'', fr_type = ''Entry''\<rparr>] \<and>
   forward_fields example_env (post_args (example_map [entry_B2])) en_US entry_B2 =
     Inr [(''title'', JStr ''Hello'')] \<and>
   (\<exists>node cs'.
      entry_node SysNode example_env (post_args (example_map [entry_B2])) en_US [] entry_B2 [] =
        Inr (Some node, cs') \<and>
      getprop node ''author___NODE'' = JArr [JStr ''#sp___A___Entry'', JStr ''#sp___C___Entry''])"
proof -
  let ?A = "post_args (example_map [entry_B2])"
  let ?fs = "[(''title'', JStr ''Hello'')]"
  from example_build obtain m where
    m: "buildForeignReferenceMap example_env [author_type, post_type]
          [[entry_A, entry_C], [entry_B2]] example_resolvable ''en-US'' ''sp'' True = Inr m"
    by (auto split: sum.splits)
  have "m K = example_map [entry_B2] K" for K
    using reverse_references
      [of example_env "[author_type, post_type]" "[[entry_A, entry_C], [entry_B2]]"
        example_resolvable "''en-US''" "''sp''" True m K] m
    by (simp add: example_map_def)
  then have "m = example_map [entry_B2]" by (rule ext)
  with m have 1: "buildForeignReferenceMap example_env [author_type, post_type]
     [[entry_A, entry_C], [entry_B2]] example_resolvable ''en-US'' ''sp'' True =
     Inr (example_map [entry_B2])" by simp
  from example_entry_node obtain node cs' where
    n: "entry_node SysNode example_env ?A en_US [] entry_B2 [] = Inr (Some node, cs')"
    by (auto split: sum.splits option.splits)
  have keys: "fst ` set (add_foreignReferences example_env ?A en_US entry_B2 ?fs) =
      {''title'', ''author___NODE''}"
    using example_merged_keys
    by (metis (no_types, lifting) list.set(1) list.set(2) list.set_map)
  have cond: "\<forall>k \<in> fst ` set (add_foreignReferences example_env ?A en_US entry_B2 ?fs).
        k @ ''___NODE'' = ''author___NODE'' \<longrightarrow>
        str_includes k ''___'' \<or>
        (\<forall>t. fieldType ?A k = Some t \<longrightarrow>
             t \<notin> {''Text'', ''RichText'', ''Object'', ''Location''})"
    unfolding keys by simp
  note t = reverse_references [where E = example_env and A = ?A and l = en_US and e = entry_B2
      and fs = ?fs and name = "''author___NODE''" and R = SysNode and created = "[]"
      and cs = "[]" and node = node and cs' = cs']
  from t n example_forward cond
  have "getprop node ''author___NODE'' =
          lookup (add_foreignReferences example_env ?A en_US entry_B2 ?fs) ''author___NODE''"
    by simp
  also from t have "\<dots> = merge_references (lookup ?fs ''author___NODE'')
       (map (\<lambda>r. JStr (foreign_id example_env ?A en_US r))
          (filter (\<lambda>r. fr_name r = ''author___NODE'')
             (foreignReferenceMap ?A (entity_key (sys entry_B2)))))"
    by blast
  also have "\<dots> = JArr [JStr ''#sp___A___Entry'', JStr ''#sp___C___Entry'']"
  proof -
    have k: "entity_key (sys entry_B2) = ''B___Entry''"
      by (simp add: entity_key_def entry_B2_def example_sys_def)
    have f: "foreignReferenceMap ?A = example_map [entry_B2]"
      by (simp add: post_args_def)
    show ?thesis
      unfolding k f example_map_B
      by (simp add: merge_references_def lookup_def foreign_id_def mId_def makeId_def
          startsWith_def example_env_def Let_def en_US_def post_args_def)
  qed
  finally have 4: "getprop node ''author___NODE'' =
      JArr [JStr ''#sp___A___Entry'', JStr ''#sp___C___Entry'']" .
  from 1 example_map_B example_forward n 4 show ?thesis by blast
qed

text \<open>
  Claim C6 as stated fails when the target entry has a \<open>Text\<close> field named like the
  back-reference.  Entries \<open>A\<close> and \<open>C\<close> of content type \<open>Author\<close> link to entry \<open>B\<close>, and
  the map lists both under the key of \<open>B\<close>; \<open>B\<close> has the \<open>Text\<close> field \<open>author\<close>, and in
  its node \<open>author___NODE\<close> is the id of the text node, with no id of \<open>A\<close> or \<open>C\<close>.
\<close>

theorem reverse_references_counterexample:
  "(case buildForeignReferenceMap example_env [author_type, post_type]
           [[entry_A, entry_C], [entry_B]] example_resolvable ''en-US'' ''sp'' True of
      Inl e \<Rightarrow> False
    | Inr m \<Rightarrow>
        map fr_id (m ''B___Entry'') = [''A'', ''C''] \<and>
        map fr_name (m ''B___Entry'') = [''author___NODE'', ''author___NODE''] \<and>
        (case entry_node SysNode example_env (post_args m) en_US [] entry_B [] of
           Inr (Some node, cs) \<Rightarrow>
             getprop node ''author___NODE'' = JStr ''##sp___B___EntryauthorTextNode''
         | _ \<Rightarrow> False))"
  by code_simp

end
